theory Spec2Isabelle
  imports Main "HOL-Library.Sublist"
begin

section \<open>Data frames of OSM features\<close>

text \<open>
  The two chunked pipelines (\<^verbatim>\<open>belgium_municipalities.py\<close>, the non-strict one, and
  \<^verbatim>\<open>test2.py\<close>, the strict one) work on GeoDataFrames returned by osmnx. A frame is
  modelled by its column names and its rows; a row carries its index entry (the OSM
  identifier, a pair of element type and number) and the cells that are not null, by column
  name. A column that a row has no cell for reads as NaN there.
\<close>

type_synonym osm_id = "string \<times> int"

datatype 'g cell = Str string | Geom 'g

record 'g feature =
  osmid :: osm_id
  cells :: "(string \<times> 'g cell) list"

record 'g frame =
  columns :: "string list"
  rows :: "'g feature list"

datatype exn = KeyError string | AttributeError string | IndexError string | TypeError string
  | Exception string

text \<open>
  The geometry library (shapely) is outside the repository: the two operations the
  pipelines call are parameters, over any type \<open>'g\<close> of geometries.
\<close>

record 'g shapely =
  geom_type :: "'g \<Rightarrow> string"
  within :: "'g \<Rightarrow> 'g \<Rightarrow> bool"

text \<open>\<^verbatim>\<open>df.empty\<close> is true when either axis has length zero; \<^verbatim>\<open>len(df)\<close> counts rows.\<close>

definition df_empty :: "'g frame \<Rightarrow> bool" where
  "df_empty df \<longleftrightarrow> rows df = [] \<or> columns df = []"

definition len :: "'g frame \<Rightarrow> nat" where
  "len df = length (rows df)"

definition index :: "'g frame \<Rightarrow> osm_id list" where
  "index df = map osmid (rows df)"

text \<open>\<^verbatim>\<open>df[mask]\<close> with a boolean series: the rows where it holds, the columns unchanged.\<close>

definition select_rows :: "('g feature \<Rightarrow> bool) \<Rightarrow> 'g frame \<Rightarrow> 'g frame" where
  "select_rows p df = df\<lparr>rows := filter p (rows df)\<rparr>"

definition geometry_of :: "'g feature \<Rightarrow> 'g option" where
  "geometry_of f = (case map_of (cells f) ''geometry'' of Some (Geom g) \<Rightarrow> Some g | _ \<Rightarrow> None)"

section \<open>The filter stages\<close>

text \<open>
  \<^verbatim>\<open>chunk[chunk['admin_level'] == target_admin_level]\<close> (test2.py, lines 77-79): a KeyError
  when the frame has no such column; a NaN cell is not equal to the target.
\<close>

definition level_is :: "string \<Rightarrow> 'g feature \<Rightarrow> bool" where
  "level_is target f \<longleftrightarrow> map_of (cells f) ''admin_level'' = Some (Str target)"

definition level_stage :: "string \<Rightarrow> 'g frame \<Rightarrow> exn + 'g frame" where
  "level_stage target df =
     (if ''admin_level'' \<in> set (columns df)
      then Inr (select_rows (level_is target) df)
      else Inl (KeyError ''admin_level''))"

text \<open>
  \<^verbatim>\<open>chunk[chunk.geometry.within(country_geom)]\<close> (test2.py, lines 85-87): an AttributeError
  when the frame has no geometry column, a TypeError when the country geometry is null; a
  row with a missing geometry is not within.
\<close>

definition lies_within :: "'g shapely \<Rightarrow> 'g option \<Rightarrow> 'g feature \<Rightarrow> bool" where
  "lies_within sh country_geom f =
     (case geometry_of f of
        None \<Rightarrow> False
      | Some g \<Rightarrow> (case country_geom of None \<Rightarrow> False | Some c \<Rightarrow> within sh g c))"

definition within_stage :: "'g shapely \<Rightarrow> 'g option \<Rightarrow> 'g frame \<Rightarrow> exn + 'g frame" where
  "within_stage sh country_geom df =
     (if ''geometry'' \<in> set (columns df)
      then (case country_geom of
              None \<Rightarrow> Inl (TypeError ''Type not known'')
            | Some c \<Rightarrow> Inr (select_rows (lies_within sh (Some c)) df))
      else Inl (AttributeError ''geometry''))"

text \<open>\<^verbatim>\<open>chunk[~chunk.index.isin(processed_osm_ids)]\<close>.\<close>

definition is_new :: "osm_id set \<Rightarrow> 'g feature \<Rightarrow> bool" where
  "is_new ids f \<longleftrightarrow> osmid f \<notin> ids"

definition novelty_stage :: "osm_id set \<Rightarrow> 'g frame \<Rightarrow> 'g frame" where
  "novelty_stage ids df = select_rows (is_new ids) df"

text \<open>\<^verbatim>\<open>chunk[chunk.geometry.type.isin(['Polygon', 'MultiPolygon'])]\<close>.\<close>

definition is_polygon :: "'g shapely \<Rightarrow> 'g feature \<Rightarrow> bool" where
  "is_polygon sh f =
     (case geometry_of f of
        None \<Rightarrow> False
      | Some g \<Rightarrow> geom_type sh g \<in> set [''Polygon'', ''MultiPolygon''])"

definition polygon_stage :: "'g shapely \<Rightarrow> 'g frame \<Rightarrow> exn + 'g frame" where
  "polygon_stage sh df =
     (if ''geometry'' \<in> set (columns df)
      then Inr (select_rows (is_polygon sh) df)
      else Inl (AttributeError ''geometry''))"

definition columns_to_keep :: "string list" where
  "columns_to_keep = [''name'', ''geometry'', ''admin_level'']"

text \<open>
  \<^verbatim>\<open>columns_in_df = [col for col in columns_to_keep if col in chunk.columns]\<close> and
  \<^verbatim>\<open>chunk[columns_in_df]\<close>.
\<close>

definition keep_cells :: "string list \<Rightarrow> 'g feature \<Rightarrow> 'g feature" where
  "keep_cells cols f = f\<lparr>cells := filter (\<lambda>kv. fst kv \<in> set cols) (cells f)\<rparr>"

definition project_stage :: "'g frame \<Rightarrow> 'g frame" where
  "project_stage df =
     (let columns_in_df = filter (\<lambda>col. col \<in> set (columns df)) columns_to_keep
      in \<lparr>columns = columns_in_df, rows = map (keep_cells columns_in_df) (rows df)\<rparr>)"

section \<open>Console, run state and the outside world\<close>

text \<open>
  \<^verbatim>\<open>getattr(state, 'name', f'State {i+1}')\<close>: the cell of the name column (NaN when it is
  null), or the default when the states frame has no such column.
\<close>

datatype 'g label = Attr "'g cell option" | Default nat

text \<open>One constructor for each \<^verbatim>\<open>print\<close> of the two scripts, with the values it formats.\<close>

datatype 'g msg =
    Removed_existing_file string
  | Downloading_country_boundary
  | Country_boundary_downloaded
  | Could_not_download_country_boundary exn
  | Downloading_state_polygons string string
  | Found_states nat
  | Could_not_download_state_polygons exn
  | Processing_municipalities_for_each_state
  | Processing_chunk nat nat "'g label"
  | Downloading_municipalities "'g label"
  | No_features_returned
  | Filtering_by_admin_level string nat nat
  | Filtering_by_country_boundary nat nat
  | Removed_duplicates nat
  | No_new_municipalities "'g label"
  | No_new_valid_municipalities
  | No_valid_polygons_left "'g label"
  | No_valid_polygons_after_cleaning
  | Found_new_municipalities nat
  | Successfully_saved nat
  | Error_while_processing "'g label" exn
  | Skipping_this_chunk
  | Rule
  | Processing_complete
  | Total_saved nat
  | Data_saved_to string

text \<open>
  The GeoPackage at \<^verbatim>\<open>output_path\<close>: the batches written so far, each with the layer it went
  to, in the order they were written; \<open>None\<close> when the file does not exist.
\<close>

type_synonym 'g gpkg = "(string \<times> 'g frame) list"

record 'g run =
  processed_osm_ids :: "osm_id set"
  total_municipalities_saved :: nat
  output_file :: "'g gpkg option"
  console :: "'g msg list"

text \<open>
  What the run cannot control: the file that may already be at the output path, the answers
  of the three osmnx calls (the call for a chunk is indexed by the loop counter, so two
  chunks may be answered differently) and whether the write of a chunk's batch fails.
\<close>

record 'g world =
  existing_file :: "'g gpkg option"
  geocode_to_gdf :: "string \<Rightarrow> exn + 'g frame"
  features_from_place :: "string \<Rightarrow> (string \<times> string) list \<Rightarrow> exn + 'g frame"
  features_from_polygon :: "nat \<Rightarrow> 'g option \<Rightarrow> (string \<times> string) list \<Rightarrow> exn + 'g frame"
  to_file_raises :: "nat \<Rightarrow> exn option"

definition emit :: "'g msg list \<Rightarrow> 'g run \<Rightarrow> 'g run" where
  "emit out s = s\<lparr>console := console s @ out\<rparr>"

section \<open>Configuration\<close>

definition place_name :: string where
  "place_name = ''Germany''"

definition chunk_admin_level :: string where
  "chunk_admin_level = ''4''"

definition target_admin_level :: string where
  "target_admin_level = ''8''"

definition tags :: "(string \<times> string) list" where
  "tags = [(''boundary'', ''administrative''), (''admin_level'', target_admin_level)]"

text \<open>\<^verbatim>\<open>str.lower\<close>, on the letters A to Z.\<close>

definition lower :: "string \<Rightarrow> string" where
  "lower s = map (\<lambda>c. case map_of (zip ''ABCDEFGHIJKLMNOPQRSTUVWXYZ''
                                         ''abcdefghijklmnopqrstuvwxyz'') c of
                          None \<Rightarrow> c | Some l \<Rightarrow> l) s"

definition output_path :: string where
  "output_path = lower place_name @ ''_municipalities_admin'' @ target_admin_level @ ''.gpkg''"

definition layer :: string where
  "layer = lower place_name @ ''_municipalities''"

section \<open>Saving a batch\<close>

datatype mode = W | A

text \<open>
  \<^verbatim>\<open>GeoDataFrame.to_file\<close> is a call into geopandas, which is not part of the repository.
  It is taken as the spec describes the writer: with mode \<^verbatim>\<open>w\<close> it creates the file
  (overwriting one that is there) with the batch as its content under the layer; with mode
  \<^verbatim>\<open>a\<close> it appends the batch to the layer. Whether it fails is up to the world, and a
  write that fails leaves the file as it was.
\<close>

definition to_file :: "exn option \<Rightarrow> 'g gpkg option \<Rightarrow> 'g frame \<Rightarrow> mode \<Rightarrow> string
    \<Rightarrow> exn + 'g gpkg option" where
  "to_file failure file batch m l =
     (case failure of
        Some e \<Rightarrow> Inl e
      | None \<Rightarrow>
          (case m of
             W \<Rightarrow> Inr (Some [(l, batch)])
           | A \<Rightarrow> Inr (Some ((case file of None \<Rightarrow> [] | Some old \<Rightarrow> old) @ [(l, batch)]))))"

text \<open>\<^verbatim>\<open>write_mode = 'a' if total_municipalities_saved > 0 else 'w'\<close>.\<close>

definition write_mode_for :: "nat \<Rightarrow> mode" where
  "write_mode_for total_saved = (if total_saved > 0 then A else W)"

text \<open>
  The end of the \<^verbatim>\<open>try\<close> block, the same in both scripts (belgium_municipalities.py lines
  95-111, test2.py lines 111-123). The result says whether an exception left the block.
\<close>

definition save_chunk :: "'g world \<Rightarrow> nat \<Rightarrow> 'g frame \<Rightarrow> 'g run \<Rightarrow> exn option \<times> 'g run" where
  "save_chunk w i batch s =
     (let s1 = emit [Found_new_municipalities (len batch)] s;
          write_mode = write_mode_for (total_municipalities_saved s1)
      in case to_file (to_file_raises w i) (output_file s1) batch write_mode layer of
           Inl e \<Rightarrow> (Some e, s1)
         | Inr file \<Rightarrow>
             (let s2 = s1\<lparr>output_file := file,
                          processed_osm_ids := processed_osm_ids s1 \<union> set (index batch),
                          total_municipalities_saved := total_municipalities_saved s1 + len batch\<rparr>
              in (None, emit [Successfully_saved (total_municipalities_saved s2)] s2)))"

text \<open>\<^verbatim>\<open>for i, x in enumerate(xs)\<close> with a body that updates the run state.\<close>

fun for_enumerate :: "(nat \<Rightarrow> 'a \<Rightarrow> 's \<Rightarrow> 's) \<Rightarrow> nat \<Rightarrow> 'a list \<Rightarrow> 's \<Rightarrow> 's" where
  "for_enumerate body i [] s = s"
| "for_enumerate body i (x # xs) s = for_enumerate body (Suc i) xs (body i x s)"

definition state_name_of :: "'g frame \<Rightarrow> nat \<Rightarrow> 'g feature \<Rightarrow> 'g label" where
  "state_name_of states i state =
     (if ''name'' \<in> set (columns states) then Attr (map_of (cells state) ''name'')
      else Default (i + 1))"

text \<open>\<^verbatim>\<open>state.geometry\<close> on a row of the states frame.\<close>

definition state_geometry :: "'g frame \<Rightarrow> 'g feature \<Rightarrow> exn + 'g option" where
  "state_geometry states state =
     (if ''geometry'' \<in> set (columns states) then Inr (geometry_of state)
      else Inl (AttributeError ''geometry''))"

definition summary :: "'g run \<Rightarrow> 'g msg list" where
  "summary s = [Rule, Processing_complete, Total_saved (total_municipalities_saved s),
                Data_saved_to output_path, Rule]"

text \<open>
  The set-up, the same in both scripts: a file found at the output path is removed, the set
  of saved identifiers is empty and the total is zero. \<^verbatim>\<open>os.remove\<close> and \<^verbatim>\<open>print\<close> are
  taken to succeed.
\<close>

definition initial_run :: "'g world \<Rightarrow> 'g run" where
  "initial_run w =
     (let s = \<lparr>processed_osm_ids = {}, total_municipalities_saved = 0,
               output_file = existing_file w, console = []\<rparr>
      in if output_file s \<noteq> None
         then emit [Removed_existing_file output_path] (s\<lparr>output_file := None\<rparr>)
         else s)"

section \<open>The non-strict pipeline (belgium_municipalities.py)\<close>

text \<open>
  Lines 71-91: the cleaning of a fetched chunk against the identifiers saved so far. The
  result is what was printed, and either the exception raised, \<open>None\<close> for
  \<^verbatim>\<open>continue\<close>, or the batch to save.
\<close>

definition belgium_filter :: "'g shapely \<Rightarrow> osm_id set \<Rightarrow> 'g label \<Rightarrow> 'g frame
    \<Rightarrow> 'g msg list \<times> (exn + 'g frame option)" where
  "belgium_filter sh ids state_name fetched =
     (let original_count = len fetched;
          chunk1 = (if \<not> df_empty fetched then novelty_stage ids fetched else fetched);
          out1 = (if \<not> df_empty fetched \<and> len chunk1 < original_count
                  then [Removed_duplicates (original_count - len chunk1)] else [])
      in if df_empty chunk1 then (out1 @ [No_new_municipalities state_name], Inr None)
         else (case polygon_stage sh chunk1 of
                 Inl e \<Rightarrow> (out1, Inl e)
               | Inr chunk2 \<Rightarrow>
                   (let chunk3 = project_stage chunk2
                    in if df_empty chunk3
                       then (out1 @ [No_valid_polygons_left state_name], Inr None)
                       else (out1, Inr (Some chunk3)))))"

text \<open>Lines 61-111: the body of the \<^verbatim>\<open>try\<close> block.\<close>

definition belgium_try :: "'g shapely \<Rightarrow> 'g world \<Rightarrow> 'g frame \<Rightarrow> nat \<Rightarrow> 'g feature
    \<Rightarrow> 'g label \<Rightarrow> 'g run \<Rightarrow> exn option \<times> 'g run" where
  "belgium_try sh w states i state state_name s =
     (let s1 = emit [Downloading_municipalities state_name] s
      in case state_geometry states state of
           Inl e \<Rightarrow> (Some e, s1)
         | Inr g \<Rightarrow>
             (case features_from_polygon w i g tags of
                Inl e \<Rightarrow> (Some e, s1)
              | Inr municipalities_chunk \<Rightarrow>
                  (case belgium_filter sh (processed_osm_ids s1) state_name
                          municipalities_chunk of
                     (out, Inl e) \<Rightarrow> (Some e, emit out s1)
                   | (out, Inr None) \<Rightarrow> (None, emit out s1)
                   | (out, Inr (Some batch)) \<Rightarrow> save_chunk w i batch (emit out s1))))"

text \<open>Lines 57-115: one turn of the loop, with the \<^verbatim>\<open>except\<close> clause.\<close>

definition belgium_chunk :: "'g shapely \<Rightarrow> 'g world \<Rightarrow> 'g frame \<Rightarrow> nat \<Rightarrow> 'g feature
    \<Rightarrow> 'g run \<Rightarrow> 'g run" where
  "belgium_chunk sh w states i state s =
     (let state_name = state_name_of states i state;
          s1 = emit [Processing_chunk (i + 1) (len states) state_name] s
      in case belgium_try sh w states i state state_name s1 of
           (None, s2) \<Rightarrow> s2
         | (Some e, s2) \<Rightarrow> emit [Error_while_processing state_name e, Skipping_this_chunk] s2)"

definition belgium_main :: "'g shapely \<Rightarrow> 'g world \<Rightarrow> 'g run" where
  "belgium_main sh w =
     (let s1 = emit [Downloading_state_polygons place_name chunk_admin_level] (initial_run w)
      in case features_from_place w place_name
                [(''boundary'', ''administrative''), (''admin_level'', chunk_admin_level)] of
           Inl e \<Rightarrow> emit [Could_not_download_state_polygons e] s1
         | Inr states \<Rightarrow>
             (let s2 = emit [Found_states (len states)] s1;
                  s3 = for_enumerate (belgium_chunk sh w states) 0 (rows states) s2
              in emit (summary s3) s3))"

section \<open>The strict pipeline (test2.py)\<close>

text \<open>Lines 68-108.\<close>

definition test2_filter :: "'g shapely \<Rightarrow> 'g option \<Rightarrow> osm_id set \<Rightarrow> 'g frame
    \<Rightarrow> 'g msg list \<times> (exn + 'g frame option)" where
  "test2_filter sh country_geom ids fetched =
     (if df_empty fetched then ([No_features_returned], Inr None)
      else (case level_stage target_admin_level fetched of
              Inl e \<Rightarrow> ([], Inl e)
            | Inr chunk1 \<Rightarrow>
                (let out1 = [Filtering_by_admin_level target_admin_level (len fetched) (len chunk1)]
                 in case within_stage sh country_geom chunk1 of
                      Inl e \<Rightarrow> (out1, Inl e)
                    | Inr chunk2 \<Rightarrow>
                        (let out2 = out1 @ [Filtering_by_country_boundary (len chunk1) (len chunk2)];
                             chunk3 = novelty_stage ids chunk2;
                             out3 = out2 @ (if len chunk3 < len chunk2
                                            then [Removed_duplicates (len chunk2 - len chunk3)]
                                            else [])
                         in if df_empty chunk3
                            then (out3 @ [No_new_valid_municipalities], Inr None)
                            else (case polygon_stage sh chunk3 of
                                    Inl e \<Rightarrow> (out3, Inl e)
                                  | Inr chunk4 \<Rightarrow>
                                      (let chunk5 = project_stage chunk4
                                       in if df_empty chunk5
                                          then (out3 @ [No_valid_polygons_after_cleaning], Inr None)
                                          else (out3, Inr (Some chunk5))))))))"

text \<open>Lines 64-123: the body of the \<^verbatim>\<open>try\<close> block.\<close>

definition test2_try :: "'g shapely \<Rightarrow> 'g world \<Rightarrow> 'g option \<Rightarrow> 'g frame \<Rightarrow> nat \<Rightarrow> 'g feature
    \<Rightarrow> 'g label \<Rightarrow> 'g run \<Rightarrow> exn option \<times> 'g run" where
  "test2_try sh w country_geom states i state state_name s =
     (let s1 = emit [Downloading_municipalities state_name] s
      in case state_geometry states state of
           Inl e \<Rightarrow> (Some e, s1)
         | Inr g \<Rightarrow>
             (case features_from_polygon w i g tags of
                Inl e \<Rightarrow> (Some e, s1)
              | Inr municipalities_chunk \<Rightarrow>
                  (case test2_filter sh country_geom (processed_osm_ids s1)
                          municipalities_chunk of
                     (out, Inl e) \<Rightarrow> (Some e, emit out s1)
                   | (out, Inr None) \<Rightarrow> (None, emit out s1)
                   | (out, Inr (Some batch)) \<Rightarrow> save_chunk w i batch (emit out s1))))"

text \<open>Lines 60-127.\<close>

definition test2_chunk :: "'g shapely \<Rightarrow> 'g world \<Rightarrow> 'g option \<Rightarrow> 'g frame \<Rightarrow> nat
    \<Rightarrow> 'g feature \<Rightarrow> 'g run \<Rightarrow> 'g run" where
  "test2_chunk sh w country_geom states i state s =
     (let state_name = state_name_of states i state;
          s1 = emit [Processing_chunk (i + 1) (len states) state_name] s
      in case test2_try sh w country_geom states i state state_name s1 of
           (None, s2) \<Rightarrow> s2
         | (Some e, s2) \<Rightarrow> emit [Error_while_processing state_name e, Skipping_this_chunk] s2)"

text \<open>
  Lines 39-46: \<^verbatim>\<open>ox.geocode_to_gdf(place_name)\<close> and
  \<^verbatim>\<open>country_boundary.geometry.iloc[0]\<close>, inside one \<^verbatim>\<open>try\<close>.
\<close>

definition fetch_country_geom :: "'g world \<Rightarrow> exn + 'g option" where
  "fetch_country_geom w =
     (case geocode_to_gdf w place_name of
        Inl e \<Rightarrow> Inl e
      | Inr country_boundary \<Rightarrow>
          (if ''geometry'' \<notin> set (columns country_boundary) then Inl (AttributeError ''geometry'')
           else (case rows country_boundary of
                   [] \<Rightarrow> Inl (IndexError ''single positional indexer is out-of-bounds'')
                 | f # _ \<Rightarrow> Inr (geometry_of f))))"

definition test2_main :: "'g shapely \<Rightarrow> 'g world \<Rightarrow> 'g run" where
  "test2_main sh w =
     (let s1 = emit [Downloading_country_boundary] (initial_run w)
      in case fetch_country_geom w of
           Inl e \<Rightarrow> emit [Could_not_download_country_boundary e] s1
         | Inr country_geom \<Rightarrow>
             (let s2 = emit [Country_boundary_downloaded,
                             Downloading_state_polygons place_name chunk_admin_level] s1
              in case features_from_place w place_name
                        [(''boundary'', ''administrative''), (''admin_level'', chunk_admin_level)] of
                   Inl e \<Rightarrow> emit [Could_not_download_state_polygons e] s2
                 | Inr states \<Rightarrow>
                     (let s3 = emit [Found_states (len states),
                                     Processing_municipalities_for_each_state] s2;
                          s4 = for_enumerate (test2_chunk sh w country_geom states) 0
                                 (rows states) s3
                      in emit (summary s4) s4)))"

section \<open>What is in the output file\<close>

definition written :: "'g run \<Rightarrow> 'g gpkg" where
  "written s = (case output_file s of None \<Rightarrow> [] | Some batches \<Rightarrow> batches)"

definition saved_features :: "'g run \<Rightarrow> 'g feature list" where
  "saved_features s = concat (map (\<lambda>lb. rows (snd lb)) (written s))"

definition saved_ids :: "'g run \<Rightarrow> osm_id list" where
  "saved_ids s = map osmid (saved_features s)"

text \<open>
  The part of the run state that outlives a chunk, and what a successful save of a batch
  does to it.
\<close>

definition core :: "'g run \<Rightarrow> osm_id set \<times> nat \<times> 'g gpkg option" where
  "core s = (processed_osm_ids s, total_municipalities_saved s, output_file s)"

definition commit :: "'g frame \<Rightarrow> osm_id set \<times> nat \<times> 'g gpkg option
    \<Rightarrow> osm_id set \<times> nat \<times> 'g gpkg option" where
  "commit batch c =
     (case c of (ids, n, file) \<Rightarrow>
        (ids \<union> set (index batch), n + len batch,
         Some (if n > 0 then (case file of None \<Rightarrow> [] | Some old \<Rightarrow> old) @ [(layer, batch)]
               else [(layer, batch)])))"

definition advances :: "(osm_id set \<Rightarrow> 'g frame \<Rightarrow> bool) \<Rightarrow> 'g run \<Rightarrow> 'g run \<Rightarrow> bool" where
  "advances P s s' \<longleftrightarrow>
     core s' = core s \<or> (\<exists>b. P (processed_osm_ids s) b \<and> core s' = commit b (core s))"

text \<open>
  The running total counts the features in the file, the file exists once something was
  written, and every batch in it is non-empty and sits in the one layer.
\<close>

definition file_ok :: "'g run \<Rightarrow> bool" where
  "file_ok s \<longleftrightarrow>
     total_municipalities_saved s = length (saved_features s) \<and>
     output_file s \<noteq> Some [] \<and>
     (\<forall>lb\<in>set (written s). fst lb = layer \<and> rows (snd lb) \<noteq> [])"

definition ids_ok :: "'g run \<Rightarrow> bool" where
  "ids_ok s \<longleftrightarrow> processed_osm_ids s = set (saved_ids s)"

text \<open>osmnx returns one row for each OSM element: the index of a fetched frame has no repeats.\<close>

definition unique_index :: "'g frame \<Rightarrow> bool" where
  "unique_index df \<longleftrightarrow> distinct (index df)"

definition unique_fetches :: "'g world \<Rightarrow> bool" where
  "unique_fetches w \<longleftrightarrow>
     (\<forall>i g df. features_from_polygon w i g tags = Inr df \<longrightarrow> unique_index df)"

text \<open>
  The stages of each pipeline, one after the other, without the checks for an empty frame
  between them: the frame that is saved when the chunk is cleaned without an exception and
  rows are left.
\<close>

definition belgium_cleaned :: "'g shapely \<Rightarrow> osm_id set \<Rightarrow> 'g frame \<Rightarrow> 'g frame" where
  "belgium_cleaned sh ids fetched =
     project_stage (select_rows (is_polygon sh) (novelty_stage ids fetched))"

definition test2_cleaned :: "'g shapely \<Rightarrow> 'g \<Rightarrow> osm_id set \<Rightarrow> 'g frame \<Rightarrow> 'g frame" where
  "test2_cleaned sh country ids fetched =
     project_stage (select_rows (is_polygon sh) (novelty_stage ids
       (select_rows (lies_within sh (Some country))
          (select_rows (level_is target_admin_level) fetched))))"



text \<open>The batches a pipeline may save when the identifiers in \<open>ids\<close> are saved already.\<close>

definition belgium_batch :: "'g shapely \<Rightarrow> 'g world \<Rightarrow> osm_id set \<Rightarrow> 'g frame \<Rightarrow> bool" where
  "belgium_batch sh w ids b \<longleftrightarrow>
     (\<exists>i g n df. features_from_polygon w i g tags = Inr df \<and>
        snd (belgium_filter sh ids n df) = Inr (Some b))"

definition test2_batch :: "'g shapely \<Rightarrow> 'g world \<Rightarrow> 'g option \<Rightarrow> osm_id set \<Rightarrow> 'g frame
    \<Rightarrow> bool" where
  "test2_batch sh w c ids b \<longleftrightarrow>
     (\<exists>i g df. features_from_polygon w i g tags = Inr df \<and>
        snd (test2_filter sh c ids df) = Inr (Some b))"



section \<open>The strict pipeline with switches on two of its stages\<close>

text \<open>
  The spec reads the two scripts as one pipeline at two strictness settings. These
  definitions follow the spec's words, not a source file: they are test2.py with its
  level-equality stage (lines 74-80) and its containment stage (lines 82-88) each behind a
  switch, and nothing else changed. With both switches on they are test2.py.
\<close>

definition staged_filter :: "bool \<Rightarrow> bool \<Rightarrow> 'g shapely \<Rightarrow> 'g option \<Rightarrow> osm_id set \<Rightarrow> 'g frame
    \<Rightarrow> 'g msg list \<times> (exn + 'g frame option)" where
  "staged_filter level_on containment_on sh country_geom ids fetched =
     (if df_empty fetched then ([No_features_returned], Inr None)
      else (case (if level_on then level_stage target_admin_level fetched else Inr fetched) of
              Inl e \<Rightarrow> ([], Inl e)
            | Inr chunk1 \<Rightarrow>
                (let out1 = (if level_on
                             then [Filtering_by_admin_level target_admin_level
                                     (len fetched) (len chunk1)]
                             else [])
                 in case (if containment_on then within_stage sh country_geom chunk1
                          else Inr chunk1) of
                      Inl e \<Rightarrow> (out1, Inl e)
                    | Inr chunk2 \<Rightarrow>
                        (let out2 = out1 @ (if containment_on
                                            then [Filtering_by_country_boundary
                                                    (len chunk1) (len chunk2)]
                                            else []);
                             chunk3 = novelty_stage ids chunk2;
                             out3 = out2 @ (if len chunk3 < len chunk2
                                            then [Removed_duplicates (len chunk2 - len chunk3)]
                                            else [])
                         in if df_empty chunk3
                            then (out3 @ [No_new_valid_municipalities], Inr None)
                            else (case polygon_stage sh chunk3 of
                                    Inl e \<Rightarrow> (out3, Inl e)
                                  | Inr chunk4 \<Rightarrow>
                                      (let chunk5 = project_stage chunk4
                                       in if df_empty chunk5
                                          then (out3 @ [No_valid_polygons_after_cleaning], Inr None)
                                          else (out3, Inr (Some chunk5))))))))"

definition staged_try :: "bool \<Rightarrow> bool \<Rightarrow> 'g shapely \<Rightarrow> 'g world \<Rightarrow> 'g option \<Rightarrow> 'g frame \<Rightarrow> nat
    \<Rightarrow> 'g feature \<Rightarrow> 'g label \<Rightarrow> 'g run \<Rightarrow> exn option \<times> 'g run" where
  "staged_try level_on containment_on sh w country_geom states i state state_name s =
     (let s1 = emit [Downloading_municipalities state_name] s
      in case state_geometry states state of
           Inl e \<Rightarrow> (Some e, s1)
         | Inr g \<Rightarrow>
             (case features_from_polygon w i g tags of
                Inl e \<Rightarrow> (Some e, s1)
              | Inr municipalities_chunk \<Rightarrow>
                  (case staged_filter level_on containment_on sh country_geom
                          (processed_osm_ids s1) municipalities_chunk of
                     (out, Inl e) \<Rightarrow> (Some e, emit out s1)
                   | (out, Inr None) \<Rightarrow> (None, emit out s1)
                   | (out, Inr (Some batch)) \<Rightarrow> save_chunk w i batch (emit out s1))))"

definition staged_chunk :: "bool \<Rightarrow> bool \<Rightarrow> 'g shapely \<Rightarrow> 'g world \<Rightarrow> 'g option \<Rightarrow> 'g frame
    \<Rightarrow> nat \<Rightarrow> 'g feature \<Rightarrow> 'g run \<Rightarrow> 'g run" where
  "staged_chunk level_on containment_on sh w country_geom states i state s =
     (let state_name = state_name_of states i state;
          s1 = emit [Processing_chunk (i + 1) (len states) state_name] s
      in case staged_try level_on containment_on sh w country_geom states i state state_name s1 of
           (None, s2) \<Rightarrow> s2
         | (Some e, s2) \<Rightarrow> emit [Error_while_processing state_name e, Skipping_this_chunk] s2)"

definition staged_main :: "bool \<Rightarrow> bool \<Rightarrow> 'g shapely \<Rightarrow> 'g world \<Rightarrow> 'g run" where
  "staged_main level_on containment_on sh w =
     (let s1 = emit [Downloading_country_boundary] (initial_run w)
      in case fetch_country_geom w of
           Inl e \<Rightarrow> emit [Could_not_download_country_boundary e] s1
         | Inr country_geom \<Rightarrow>
             (let s2 = emit [Country_boundary_downloaded,
                             Downloading_state_polygons place_name chunk_admin_level] s1
              in case features_from_place w place_name
                        [(''boundary'', ''administrative''), (''admin_level'', chunk_admin_level)] of
                   Inl e \<Rightarrow> emit [Could_not_download_state_polygons e] s2
                 | Inr states \<Rightarrow>
                     (let s3 = emit [Found_states (len states),
                                     Processing_municipalities_for_each_state] s2;
                          s4 = for_enumerate
                                 (staged_chunk level_on containment_on sh w country_geom states) 0
                                 (rows states) s3
                      in emit (summary s4) s4)))"

section \<open>A small world to run the pipelines in\<close>

text \<open>
  Geometries for the examples: a geometry type and the tiles of a grid that the geometry
  covers; one geometry is within another when its tiles are among the other's.
\<close>

type_synonym tiles = "string \<times> nat list"

definition grid :: "tiles shapely" where
  "grid = \<lparr>geom_type = fst, within = (\<lambda>a b. set (snd a) \<subseteq> set (snd b))\<rparr>"

definition germany :: tiles where
  "germany = (''MultiPolygon'', [0, 1, 2, 3])"

definition way123_first :: "tiles feature" where
  "way123_first = \<lparr>osmid = (''way'', 123),
     cells = [(''name'', Str ''Aachen''), (''geometry'', Geom (''Polygon'', [1])),
              (''admin_level'', Str ''8''), (''wikidata'', Str ''Q1017'')]\<rparr>"

definition way123_second :: "tiles feature" where
  "way123_second = \<lparr>osmid = (''way'', 123),
     cells = [(''name'', Str ''Aachen again''), (''geometry'', Geom (''Polygon'', [1])),
              (''admin_level'', Str ''8'')]\<rparr>"

definition district :: "tiles feature" where
  "district = \<lparr>osmid = (''relation'', 9),
     cells = [(''name'', Str ''Kreis''), (''geometry'', Geom (''MultiPolygon'', [1, 2])),
              (''admin_level'', Str ''9'')]\<rparr>"

definition town_hall :: "tiles feature" where
  "town_hall = \<lparr>osmid = (''node'', 4),
     cells = [(''name'', Str ''Rathaus''), (''geometry'', Geom (''Point'', [1])),
              (''admin_level'', Str ''8'')]\<rparr>"

definition border_town :: "tiles feature" where
  "border_town = \<lparr>osmid = (''way'', 5),
     cells = [(''name'', Str ''Grenzstadt''), (''geometry'', Geom (''Polygon'', [3, 4])),
              (''admin_level'', Str ''8'')]\<rparr>"

definition chunk_one :: "tiles frame" where
  "chunk_one = \<lparr>columns = [''geometry'', ''name'', ''admin_level'', ''wikidata''],
                 rows = [way123_first, district, town_hall]\<rparr>"

definition chunk_two :: "tiles frame" where
  "chunk_two = \<lparr>columns = [''geometry'', ''name'', ''admin_level''],
                 rows = [way123_second, border_town]\<rparr>"


definition three_states :: "tiles frame" where
  "three_states = \<lparr>columns = [''geometry'', ''name''],
     rows = [\<lparr>osmid = (''relation'', 1),
              cells = [(''geometry'', Geom (''Polygon'', [0, 1])), (''name'', Str ''West'')]\<rparr>,
             \<lparr>osmid = (''relation'', 2),
              cells = [(''geometry'', Geom (''Polygon'', [1, 2, 3])), (''name'', Str ''Ost'')]\<rparr>,
             \<lparr>osmid = (''relation'', 3),
              cells = [(''geometry'', Geom (''Polygon'', [2])), (''name'', Str ''Mitte'')]\<rparr>]\<rparr>"

definition country_frame :: "tiles frame" where
  "country_frame = \<lparr>columns = [''geometry''],
     rows = [\<lparr>osmid = (''relation'', 51477), cells = [(''geometry'', Geom germany)]\<rparr>]\<rparr>"

text \<open>
  A file is already at the output path; the first two chunks are answered, the fetch of the
  third one times out; every write goes through.
\<close>

definition demo :: "tiles world" where
  "demo = \<lparr>existing_file = Some [(''old'', chunk_two)],
            geocode_to_gdf = (\<lambda>place. Inr country_frame),
            features_from_place = (\<lambda>place query. Inr three_states),
            features_from_polygon = (\<lambda>i g query.
              if i = 0 then Inr chunk_one else if i = 1 then Inr chunk_two
              else Inl (Exception ''timed out'')),
            to_file_raises = (\<lambda>i. None)\<rparr>"

text \<open>What the two filters make of the first chunk when nothing was saved before.\<close>

definition loose_batch :: "tiles frame" where
  "loose_batch = \<lparr>columns = [''name'', ''geometry'', ''admin_level''],
     rows = [\<lparr>osmid = (''way'', 123),
              cells = [(''name'', Str ''Aachen''), (''geometry'', Geom (''Polygon'', [1])),
                       (''admin_level'', Str ''8'')]\<rparr>,
             district]\<rparr>"

definition strict_batch :: "tiles frame" where
  "strict_batch = \<lparr>columns = [''name'', ''geometry'', ''admin_level''],
     rows = [\<lparr>osmid = (''way'', 123),
              cells = [(''name'', Str ''Aachen''), (''geometry'', Geom (''Polygon'', [1])),
                       (''admin_level'', Str ''8'')]\<rparr>]\<rparr>"


text \<open>The same world when the country boundary cannot be fetched.\<close>

definition no_boundary :: "tiles world" where
  "no_boundary = demo\<lparr>geocode_to_gdf := (\<lambda>place. Inl (Exception ''no route to host''))\<rparr>"

text \<open>The same world when the states cannot be fetched.\<close>

definition no_states :: "tiles world" where
  "no_states = demo\<lparr>features_from_place := (\<lambda>place query. Inl (Exception ''no route to host''))\<rparr>"

text \<open>The same world when the write of the first chunk fails.\<close>

definition disk_full :: "tiles world" where
  "disk_full = demo\<lparr>to_file_raises := (\<lambda>i. if i = 0 then Some (Exception ''disk full'') else None)\<rparr>"

text \<open>A fetched frame with two rows for one OSM element, and the world that returns it.\<close>

definition repeated_chunk :: "tiles frame" where
  "repeated_chunk = \<lparr>columns = [''geometry'', ''name'', ''admin_level''],
                      rows = [way123_first, way123_second]\<rparr>"

definition repeating :: "tiles world" where
  "repeating = demo\<lparr>features_from_polygon := (\<lambda>i g query. Inr repeated_chunk)\<rparr>"

text \<open>The run state of the non-strict pipeline after the first chunk of \<open>demo\<close>.\<close>

definition after_first :: "tiles run" where
  "after_first = \<lparr>processed_osm_ids = {(''way'', 123), (''relation'', 9)},
                   total_municipalities_saved = 2,
                   output_file = Some [(layer, loose_batch)],
                   console = []\<rparr>"

section \<open>Facts about the stages\<close>

lemma select_rows_simps:
  "rows (select_rows p df) = filter p (rows df)"
  "columns (select_rows p df) = columns df"
  by (simp_all add: select_rows_def)

lemma index_select_rows: "index (select_rows p df) = map osmid (filter p (rows df))"
  by (simp add: index_def select_rows_def)

lemma project_stage_simps:
  "columns (project_stage df) = filter (\<lambda>col. col \<in> set (columns df)) columns_to_keep"
  "rows (project_stage df) =
     map (keep_cells (filter (\<lambda>col. col \<in> set (columns df)) columns_to_keep)) (rows df)"
  by (simp_all add: project_stage_def Let_def)

lemma osmid_keep_cells: "osmid (keep_cells cols f) = osmid f"
  by (simp add: keep_cells_def)

lemma index_project_stage: "index (project_stage df) = index df"
  by (simp add: index_def project_stage_simps osmid_keep_cells cong: map_cong)

lemma map_of_filter_key:
  "map_of (filter (\<lambda>kv. fst kv \<in> K) xs) k = (if k \<in> K then map_of xs k else None)"
  by (induction xs) auto

lemma map_of_keep_cells:
  "map_of (cells (keep_cells cols f)) k = (if k \<in> set cols then map_of (cells f) k else None)"
  by (simp add: keep_cells_def map_of_filter_key)

lemma geometry_of_keep_cells:
  "''geometry'' \<in> set cols \<Longrightarrow> geometry_of (keep_cells cols f) = geometry_of f"
  by (simp add: geometry_of_def map_of_keep_cells)

lemma is_polygon_keep_cells:
  "''geometry'' \<in> set cols \<Longrightarrow> is_polygon sh (keep_cells cols f) = is_polygon sh f"
  by (simp add: is_polygon_def geometry_of_keep_cells)

lemma lies_within_keep_cells:
  "''geometry'' \<in> set cols \<Longrightarrow> lies_within sh c (keep_cells cols f) = lies_within sh c f"
  by (simp add: lies_within_def geometry_of_keep_cells)

lemma level_is_keep_cells:
  "''admin_level'' \<in> set cols \<Longrightarrow> level_is t (keep_cells cols f) = level_is t f"
  by (simp add: level_is_def map_of_keep_cells)

lemma is_new_keep_cells: "is_new ids (keep_cells cols f) = is_new ids f"
  by (simp add: is_new_def osmid_keep_cells)

lemma keep_cells_idem:
  "set cols' = set cols \<Longrightarrow> keep_cells cols' (keep_cells cols f) = keep_cells cols f"
  by (simp add: keep_cells_def)

lemma select_rows_all: "\<forall>f\<in>set (rows df). p f \<Longrightarrow> select_rows p df = df"
  by (simp add: select_rows_def)

lemma filter_mem_self: "filter (\<lambda>c. c \<in> set xs \<and> P c) xs = filter P xs"
  by (rule filter_cong[OF refl]) simp

lemma project_stage_idem: "project_stage (project_stage df) = project_stage df"
  by (simp add: project_stage_def Let_def filter_mem_self keep_cells_idem cong: map_cong)

text \<open>What a batch that leaves the non-strict filter looks like.\<close>

lemma belgium_filter_batch:
  assumes "snd (belgium_filter sh ids n df) = Inr (Some b)"
  shows "b = project_stage (select_rows (is_polygon sh) (novelty_stage ids df))"
    and "''geometry'' \<in> set (columns df)"
    and "\<not> df_empty b"
  using assms
  by (auto simp: belgium_filter_def Let_def polygon_stage_def novelty_stage_def
      select_rows_simps df_empty_def split: if_splits)

lemma test2_filter_batch:
  assumes "snd (test2_filter sh c ids df) = Inr (Some b)"
  shows "b = project_stage (select_rows (is_polygon sh) (novelty_stage ids
           (select_rows (lies_within sh c) (select_rows (level_is target_admin_level) df))))"
    and "''geometry'' \<in> set (columns df)"
    and "''admin_level'' \<in> set (columns df)"
    and "\<not> df_empty b"
  using assms
  by (auto simp: test2_filter_def Let_def polygon_stage_def novelty_stage_def level_stage_def
      within_stage_def select_rows_simps split: if_splits option.splits)

lemma geometry_in_projection:
  "''geometry'' \<in> set (columns df) \<Longrightarrow> ''geometry'' \<in> set (columns (project_stage df))"
  by (simp add: project_stage_simps columns_to_keep_def)

lemma admin_level_in_projection:
  "''admin_level'' \<in> set (columns df) \<Longrightarrow> ''admin_level'' \<in> set (columns (project_stage df))"
  by (simp add: project_stage_simps columns_to_keep_def)

lemma lies_withinD0: "lies_within sh c f \<Longrightarrow> \<exists>b. c = Some b"
  by (auto simp: lies_within_def split: option.splits)

lemma belgium_filter_fixed:
  assumes "\<not> df_empty b" and "\<forall>f\<in>set (rows b). is_new ids f"
    and "''geometry'' \<in> set (columns b)" and "\<forall>f\<in>set (rows b). is_polygon sh f"
    and "project_stage b = b"
  shows "snd (belgium_filter sh ids n b) = Inr (Some b)"
proof -
  have "novelty_stage ids b = b"
    using assms(2) by (simp add: novelty_stage_def select_rows_all)
  moreover have "polygon_stage sh b = Inr b"
    using assms(3,4) by (simp add: polygon_stage_def select_rows_all)
  ultimately show ?thesis
    using assms(1,5) by (simp add: belgium_filter_def Let_def)
qed

lemma test2_filter_fixed:
  assumes "\<not> df_empty b" and "\<forall>f\<in>set (rows b). is_new ids f"
    and "''geometry'' \<in> set (columns b)" and "\<forall>f\<in>set (rows b). is_polygon sh f"
    and "''admin_level'' \<in> set (columns b)"
    and "\<forall>f\<in>set (rows b). level_is target_admin_level f"
    and "\<forall>f\<in>set (rows b). lies_within sh c f"
    and "project_stage b = b"
  shows "snd (test2_filter sh c ids b) = Inr (Some b)"
proof -
  have "novelty_stage ids b = b"
    using assms(2) by (simp add: novelty_stage_def select_rows_all)
  moreover have "polygon_stage sh b = Inr b"
    using assms(3,4) by (simp add: polygon_stage_def select_rows_all)
  moreover have "level_stage target_admin_level b = Inr b"
    using assms(5,6) by (simp add: level_stage_def select_rows_all)
  moreover have "within_stage sh c b = Inr b"
  proof -
    from assms(1) obtain f where "f \<in> set (rows b)"
      by (cases "rows b") (auto simp: df_empty_def)
    with assms(7) have "lies_within sh c f" by blast
    then obtain g where "c = Some g" by (auto dest: lies_withinD0)
    with assms(3,7) show ?thesis by (simp add: within_stage_def select_rows_all)
  qed
  ultimately show ?thesis
    using assms(1,8) by (simp add: test2_filter_def Let_def)
qed

text \<open>The rows of a batch, seen from the frame that was fetched.\<close>

lemma belgium_filter_rows:
  assumes "snd (belgium_filter sh ids n df) = Inr (Some b)"
  shows "\<forall>f\<in>set (rows b). is_new ids f \<and> is_polygon sh f"
proof -
  note b = belgium_filter_batch[OF assms]
  have g: "''geometry'' \<in> set (filter (\<lambda>col. col \<in> set (columns df)) columns_to_keep)"
    using b(2) by (simp add: columns_to_keep_def)
  show ?thesis
    unfolding b(1)
    by (auto simp: project_stage_simps select_rows_simps novelty_stage_def
        is_new_keep_cells is_polygon_keep_cells[OF g])
qed

lemma test2_filter_rows:
  assumes "snd (test2_filter sh c ids df) = Inr (Some b)"
  shows "\<forall>f\<in>set (rows b). is_new ids f \<and> is_polygon sh f \<and> level_is target_admin_level f
           \<and> lies_within sh c f"
proof -
  note b = test2_filter_batch[OF assms]
  have g: "''geometry'' \<in> set (filter (\<lambda>col. col \<in> set (columns df)) columns_to_keep)"
    using b(2) by (simp add: columns_to_keep_def)
  have a: "''admin_level'' \<in> set (filter (\<lambda>col. col \<in> set (columns df)) columns_to_keep)"
    using b(3) by (simp add: columns_to_keep_def)
  show ?thesis
    unfolding b(1)
    by (auto simp: project_stage_simps select_rows_simps novelty_stage_def
        is_new_keep_cells is_polygon_keep_cells[OF g] lies_within_keep_cells[OF g]
        level_is_keep_cells[OF a])
qed

lemma belgium_filter_columns:
  assumes "snd (belgium_filter sh ids n df) = Inr (Some b)"
  shows "columns b = filter (\<lambda>col. col \<in> set (columns df)) columns_to_keep"
    and "''geometry'' \<in> set (columns b)"
    and "project_stage b = b"
proof -
  note b = belgium_filter_batch[OF assms]
  show "columns b = filter (\<lambda>col. col \<in> set (columns df)) columns_to_keep"
    unfolding b(1) by (simp add: project_stage_simps select_rows_simps novelty_stage_def)
  then show "''geometry'' \<in> set (columns b)"
    using b(2) by (simp add: columns_to_keep_def)
  show "project_stage b = b"
    unfolding b(1) by (rule project_stage_idem)
qed

lemma test2_filter_columns:
  assumes "snd (test2_filter sh c ids df) = Inr (Some b)"
  shows "columns b = filter (\<lambda>col. col \<in> set (columns df)) columns_to_keep"
    and "''geometry'' \<in> set (columns b)"
    and "''admin_level'' \<in> set (columns b)"
    and "project_stage b = b"
proof -
  note b = test2_filter_batch[OF assms]
  show c: "columns b = filter (\<lambda>col. col \<in> set (columns df)) columns_to_keep"
    unfolding b(1) by (simp add: project_stage_simps select_rows_simps novelty_stage_def)
  show "''geometry'' \<in> set (columns b)"
    using b(2) c by (simp add: columns_to_keep_def)
  show "''admin_level'' \<in> set (columns b)"
    using b(3) c by (simp add: columns_to_keep_def)
  show "project_stage b = b"
    unfolding b(1) by (rule project_stage_idem)
qed

section \<open>What one chunk does to the run state\<close>

lemma core_emit: "core (emit out s) = core s"
  by (simp add: core_def emit_def)

lemma console_emit: "console (emit out s) = console s @ out"
  by (simp add: emit_def)

lemma processed_emit: "processed_osm_ids (emit out s) = processed_osm_ids s"
  by (simp add: emit_def)

lemma save_chunk_cases:
  assumes "save_chunk w i b s = (r, s')"
  shows "(\<exists>e. to_file_raises w i = Some e \<and> r = Some e \<and> core s' = core s) \<or>
         (to_file_raises w i = None \<and> r = None \<and> core s' = commit b (core s))"
  using assms
  by (auto simp: save_chunk_def to_file_def write_mode_for_def Let_def core_def commit_def
      emit_def split: option.splits if_splits)

lemma belgium_try_cases:
  assumes "belgium_try sh w states i st n s = (r, s')"
  shows "core s' = core s \<or>
         (r = None \<and> (\<exists>g df b. features_from_polygon w i g tags = Inr df \<and>
            snd (belgium_filter sh (processed_osm_ids s) n df) = Inr (Some b) \<and>
            to_file_raises w i = None \<and> core s' = commit b (core s)))"
proof (cases "state_geometry states st")
  case (Inl e)
  with assms show ?thesis by (auto simp: belgium_try_def Let_def core_emit)
next
  case g: (Inr g)
  show ?thesis
  proof (cases "features_from_polygon w i g tags")
    case (Inl e)
    with g assms show ?thesis by (auto simp: belgium_try_def Let_def core_emit)
  next
    case df: (Inr df)
    obtain out res where f: "belgium_filter sh (processed_osm_ids s) n df = (out, res)"
      by (cases "belgium_filter sh (processed_osm_ids s) n df")
    show ?thesis
    proof (cases res)
      case (Inl e)
      with g df f assms show ?thesis
        by (auto simp: belgium_try_def Let_def core_emit processed_emit)
    next
      case (Inr ob)
      show ?thesis
      proof (cases ob)
        case None
        with Inr g df f assms show ?thesis
          by (auto simp: belgium_try_def Let_def core_emit processed_emit)
      next
        case (Some b)
        with Inr g df f assms
        have "save_chunk w i b (emit out (emit [Downloading_municipalities n] s)) = (r, s')"
          by (simp add: belgium_try_def Let_def processed_emit)
        from save_chunk_cases[OF this]
        have "core s' = core s \<or>
              (r = None \<and> to_file_raises w i = None \<and> core s' = commit b (core s))"
          by (auto simp: core_emit)
        moreover have "snd (belgium_filter sh (processed_osm_ids s) n df) = Inr (Some b)"
          using f Inr Some by simp
        ultimately show ?thesis
          using df by blast
      qed
    qed
  qed
qed

lemma test2_try_cases:
  assumes "test2_try sh w c states i st n s = (r, s')"
  shows "core s' = core s \<or>
         (r = None \<and> (\<exists>g df b. features_from_polygon w i g tags = Inr df \<and>
            snd (test2_filter sh c (processed_osm_ids s) df) = Inr (Some b) \<and>
            to_file_raises w i = None \<and> core s' = commit b (core s)))"
proof (cases "state_geometry states st")
  case (Inl e)
  with assms show ?thesis by (auto simp: test2_try_def Let_def core_emit)
next
  case g: (Inr g)
  show ?thesis
  proof (cases "features_from_polygon w i g tags")
    case (Inl e)
    with g assms show ?thesis by (auto simp: test2_try_def Let_def core_emit)
  next
    case df: (Inr df)
    obtain out res where f: "test2_filter sh c (processed_osm_ids s) df = (out, res)"
      by (cases "test2_filter sh c (processed_osm_ids s) df")
    show ?thesis
    proof (cases res)
      case (Inl e)
      with g df f assms show ?thesis
        by (auto simp: test2_try_def Let_def core_emit processed_emit)
    next
      case (Inr ob)
      show ?thesis
      proof (cases ob)
        case None
        with Inr g df f assms show ?thesis
          by (auto simp: test2_try_def Let_def core_emit processed_emit)
      next
        case (Some b)
        with Inr g df f assms
        have "save_chunk w i b (emit out (emit [Downloading_municipalities n] s)) = (r, s')"
          by (simp add: test2_try_def Let_def processed_emit)
        from save_chunk_cases[OF this]
        have "core s' = core s \<or>
              (r = None \<and> to_file_raises w i = None \<and> core s' = commit b (core s))"
          by (auto simp: core_emit)
        moreover have "snd (test2_filter sh c (processed_osm_ids s) df) = Inr (Some b)"
          using f Inr Some by simp
        ultimately show ?thesis
          using df by blast
      qed
    qed
  qed
qed



lemma belgium_chunk_cases:
  "core (belgium_chunk sh w states i st s) = core s \<or>
   (\<exists>g df b n. features_from_polygon w i g tags = Inr df \<and>
      snd (belgium_filter sh (processed_osm_ids s) n df) = Inr (Some b) \<and>
      to_file_raises w i = None \<and> core (belgium_chunk sh w states i st s) = commit b (core s))"
proof -
  let ?n = "state_name_of states i st"
  let ?s1 = "emit [Processing_chunk (i + 1) (len states) ?n] s"
  obtain r s2 where t: "belgium_try sh w states i st ?n ?s1 = (r, s2)"
    by (cases "belgium_try sh w states i st ?n ?s1")
  have c: "core (belgium_chunk sh w states i st s) = core s2"
    using t by (cases r) (simp_all add: belgium_chunk_def Let_def core_emit)
  from belgium_try_cases[OF t] show ?thesis
    unfolding c by (auto simp: core_emit processed_emit)
qed

lemma test2_chunk_cases:
  "core (test2_chunk sh w c states i st s) = core s \<or>
   (\<exists>g df b. features_from_polygon w i g tags = Inr df \<and>
      snd (test2_filter sh c (processed_osm_ids s) df) = Inr (Some b) \<and>
      to_file_raises w i = None \<and> core (test2_chunk sh w c states i st s) = commit b (core s))"
proof -
  let ?n = "state_name_of states i st"
  let ?s1 = "emit [Processing_chunk (i + 1) (len states) ?n] s"
  obtain r s2 where t: "test2_try sh w c states i st ?n ?s1 = (r, s2)"
    by (cases "test2_try sh w c states i st ?n ?s1")
  have c: "core (test2_chunk sh w c states i st s) = core s2"
    using t by (cases r) (simp_all add: test2_chunk_def Let_def core_emit)
  from test2_try_cases[OF t] show ?thesis
    unfolding c by (auto simp: core_emit processed_emit)
qed

section \<open>Invariants of the loop\<close>


lemma saved_features_core: "core s' = core s \<Longrightarrow> saved_features s' = saved_features s"
  by (simp add: saved_features_def written_def core_def)


lemma file_ok_core: "core s' = core s \<Longrightarrow> file_ok s' = file_ok s"
  by (simp add: file_ok_def saved_features_def written_def core_def)

lemma ids_ok_core: "core s' = core s \<Longrightarrow> ids_ok s' = ids_ok s"
  by (simp add: ids_ok_def saved_ids_def saved_features_def written_def core_def)

lemma file_ok_nothing_written:
  assumes "file_ok s" and "total_municipalities_saved s = 0"
  shows "written s = []"
proof (rule ccontr)
  assume "written s \<noteq> []"
  then obtain lb rest where w: "written s = lb # rest" by (cases "written s") auto
  with assms(1) have "rows (snd lb) \<noteq> []" by (simp add: file_ok_def)
  with w have "saved_features s \<noteq> []" by (simp add: saved_features_def)
  with assms show False by (simp add: file_ok_def)
qed

lemma file_ok_total_zero:
  assumes "file_ok s"
  shows "total_municipalities_saved s = 0 \<longleftrightarrow> output_file s = None"
proof
  assume "total_municipalities_saved s = 0"
  from file_ok_nothing_written[OF assms this] assms show "output_file s = None"
    by (cases "output_file s") (simp_all add: written_def file_ok_def)
next
  assume "output_file s = None"
  with assms show "total_municipalities_saved s = 0"
    by (simp add: file_ok_def saved_features_def written_def)
qed

lemma commit_effect:
  assumes "file_ok s" and "core s' = commit b (core s)"
  shows "written s' = written s @ [(layer, b)]"
    and "output_file s' = Some (written s @ [(layer, b)])"
    and "total_municipalities_saved s' = total_municipalities_saved s + len b"
    and "processed_osm_ids s' = processed_osm_ids s \<union> set (index b)"
proof -
  show o: "output_file s' = Some (written s @ [(layer, b)])"
  proof (cases "total_municipalities_saved s = 0")
    case True
    from file_ok_nothing_written[OF assms(1) True] True assms(2) show ?thesis
      by (simp add: core_def commit_def)
  next
    case False
    with assms(2) show ?thesis
      by (simp add: core_def commit_def written_def)
  qed
  then show "written s' = written s @ [(layer, b)]" by (simp add: written_def)
  from assms(2) show "total_municipalities_saved s' = total_municipalities_saved s + len b"
    and "processed_osm_ids s' = processed_osm_ids s \<union> set (index b)"
    by (simp_all add: core_def commit_def)
qed

lemma commit_saved:
  assumes "file_ok s" and "core s' = commit b (core s)"
  shows "saved_features s' = saved_features s @ rows b"
    and "saved_ids s' = saved_ids s @ index b"
  using commit_effect(1)[OF assms]
  by (simp_all add: saved_ids_def saved_features_def index_def)

lemma file_ok_commit:
  assumes "file_ok s" and "core s' = commit b (core s)" and "rows b \<noteq> []"
  shows "file_ok s'"
  using assms(1,3) commit_effect[OF assms(1,2)] commit_saved[OF assms(1,2)]
  by (auto simp: file_ok_def len_def)

lemma ids_ok_commit:
  assumes "file_ok s" and "core s' = commit b (core s)" and "ids_ok s"
  shows "ids_ok s'"
  using assms(3) commit_effect[OF assms(1,2)] commit_saved[OF assms(1,2)]
  by (auto simp: ids_ok_def)

lemma advancesE:
  assumes "advances P s s'"
  obtains (same) "core s' = core s"
  | (saved) b where "P (processed_osm_ids s) b" and "core s' = commit b (core s)"
  using assms unfolding advances_def by blast

lemma advances_file_ok:
  assumes "advances P s s'" and "\<And>ids b. P ids b \<Longrightarrow> rows b \<noteq> []" and "file_ok s"
  shows "file_ok s'"
  using assms(1)
proof (cases rule: advancesE)
  case same
  with assms(3) show ?thesis by (simp only: file_ok_core[OF same])
next
  case (saved b)
  with assms(2,3) show ?thesis by (blast intro: file_ok_commit)
qed

lemma advances_ids_ok:
  assumes "advances P s s'" and "file_ok s" and "ids_ok s"
  shows "ids_ok s'"
  using assms(1)
proof (cases rule: advancesE)
  case same
  with assms(3) show ?thesis by (simp only: ids_ok_core[OF same])
next
  case (saved b)
  with assms(2,3) show ?thesis by (blast intro: ids_ok_commit)
qed



lemma advances_features:
  assumes "advances P s s'" and "\<And>ids b. P ids b \<Longrightarrow> \<forall>f\<in>set (rows b). Q f" and "file_ok s"
    and "\<forall>f\<in>set (saved_features s). Q f"
  shows "\<forall>f\<in>set (saved_features s'). Q f"
  using assms(1)
proof (cases rule: advancesE)
  case same
  with assms(4) show ?thesis by (simp only: saved_features_core[OF same])
next
  case (saved b)
  from assms(2)[OF saved(1)] assms(4) show ?thesis
    unfolding commit_saved(1)[OF assms(3) saved(2)] by auto
qed



lemma for_enumerate_invariant:
  assumes "\<And>i x s. I s \<Longrightarrow> I (body i x s)" and "I s"
  shows "I (for_enumerate body i xs s)"
  using assms(2) by (induction xs arbitrary: i s) (simp_all add: assms(1))

section \<open>The batches that are saved\<close>

lemma belgium_batch_index:
  assumes "snd (belgium_filter sh ids n df) = Inr (Some b)"
  shows "index b = map osmid (filter (is_polygon sh) (filter (is_new ids) (rows df)))"
  unfolding belgium_filter_batch(1)[OF assms]
  by (simp add: index_project_stage index_select_rows novelty_stage_def select_rows_simps)

lemma test2_batch_index:
  assumes "snd (test2_filter sh c ids df) = Inr (Some b)"
  shows "index b = map osmid (filter (is_polygon sh) (filter (is_new ids)
           (filter (lies_within sh c) (filter (level_is target_admin_level) (rows df)))))"
  unfolding test2_filter_batch(1)[OF assms]
  by (simp add: index_project_stage index_select_rows novelty_stage_def select_rows_simps)

lemma belgium_batch_new:
  assumes "belgium_batch sh w ids b"
  shows "rows b \<noteq> []" and "set (index b) \<inter> ids = {}"
proof -
  from assms obtain i g n df where f: "features_from_polygon w i g tags = Inr df"
    and b: "snd (belgium_filter sh ids n df) = Inr (Some b)"
    unfolding belgium_batch_def by blast
  from belgium_filter_batch(3)[OF b] show "rows b \<noteq> []" by (simp add: df_empty_def)
  show "set (index b) \<inter> ids = {}"
    unfolding belgium_batch_index[OF b] by (auto simp: is_new_def)
qed

lemma belgium_batch_distinct:
  assumes "belgium_batch sh w ids b" and "unique_fetches w"
  shows "distinct (index b)"
proof -
  from assms(1) obtain i g n df where f: "features_from_polygon w i g tags = Inr df"
    and b: "snd (belgium_filter sh ids n df) = Inr (Some b)"
    unfolding belgium_batch_def by blast
  from assms(2) f have "distinct (map osmid (rows df))"
    by (auto simp: unique_fetches_def unique_index_def index_def)
  then show ?thesis
    unfolding belgium_batch_index[OF b] by (simp add: distinct_map_filter)
qed


lemma test2_batch_new:
  assumes "test2_batch sh w c ids b"
  shows "rows b \<noteq> []" and "set (index b) \<inter> ids = {}"
proof -
  from assms obtain i g df where f: "features_from_polygon w i g tags = Inr df"
    and b: "snd (test2_filter sh c ids df) = Inr (Some b)"
    unfolding test2_batch_def by blast
  from test2_filter_batch(4)[OF b] show "rows b \<noteq> []" by (simp add: df_empty_def)
  show "set (index b) \<inter> ids = {}"
    unfolding test2_batch_index[OF b] by (auto simp: is_new_def)
qed

lemma test2_batch_distinct:
  assumes "test2_batch sh w c ids b" and "unique_fetches w"
  shows "distinct (index b)"
proof -
  from assms(1) obtain i g df where f: "features_from_polygon w i g tags = Inr df"
    and b: "snd (test2_filter sh c ids df) = Inr (Some b)"
    unfolding test2_batch_def by blast
  from assms(2) f have "distinct (map osmid (rows df))"
    by (auto simp: unique_fetches_def unique_index_def index_def)
  then show ?thesis
    unfolding test2_batch_index[OF b] by (simp add: distinct_map_filter)
qed


lemma test2_batch_features:
  assumes "test2_batch sh w c ids b"
  shows "\<forall>f\<in>set (rows b). level_is target_admin_level f \<and> lies_within sh c f"
proof -
  from assms obtain i g df where b: "snd (test2_filter sh c ids df) = Inr (Some b)"
    unfolding test2_batch_def by blast
  from test2_filter_rows[OF b] show ?thesis by blast
qed

section \<open>Chunks and runs as sequences of saves\<close>

lemma belgium_chunk_advances:
  "advances (belgium_batch sh w) s (belgium_chunk sh w states i st s)"
  using belgium_chunk_cases[of sh w states i st s]
  unfolding advances_def belgium_batch_def by blast

lemma test2_chunk_advances:
  "advances (test2_batch sh w c) s (test2_chunk sh w c states i st s)"
  using test2_chunk_cases[of sh w c states i st s]
  unfolding advances_def test2_batch_def by blast

lemma for_enumerate_advances:
  assumes "\<And>i x s. advances P s (body i x s)"
  shows "(advances P)\<^sup>*\<^sup>* s (for_enumerate body i xs s)"
proof (induction xs arbitrary: i s)
  case Nil
  show ?case by simp
next
  case (Cons x xs)
  have "(advances P)\<^sup>*\<^sup>* (body i x s) (for_enumerate body (Suc i) xs (body i x s))"
    by (rule Cons.IH)
  with assms[of s i x] show ?case
    by (simp add: converse_rtranclp_into_rtranclp)
qed

lemma advances_core_left: "advances P s s' \<Longrightarrow> core t = core s \<Longrightarrow> advances P t s'"
  by (auto simp: advances_def core_def)

lemma advances_core_right: "advances P s s' \<Longrightarrow> core t = core s' \<Longrightarrow> advances P s t"
  by (auto simp: advances_def)

lemma advances_same: "core s' = core s \<Longrightarrow> advances P s s'"
  by (simp add: advances_def)

lemma evolves_core_right:
  assumes "(advances P)\<^sup>*\<^sup>* s s'" and "core t = core s'"
  shows "(advances P)\<^sup>*\<^sup>* s t"
proof -
  have "advances P s' t" using assms(2) by (rule advances_same)
  with assms(1) show ?thesis by (rule rtranclp.rtrancl_into_rtrancl)
qed

lemma evolves_core_left:
  assumes "(advances P)\<^sup>*\<^sup>* s s'" and "core s = core t"
  shows "(advances P)\<^sup>*\<^sup>* t s'"
proof -
  have "advances P t s" using assms(2) by (rule advances_same)
  with assms(1) show ?thesis by (rule converse_rtranclp_into_rtranclp[rotated])
qed

lemma core_initial_run: "core (initial_run w) = ({}, 0, None)"
  by (simp add: initial_run_def core_def emit_def Let_def)

lemma belgium_main_evolves:
  "(advances (belgium_batch sh w))\<^sup>*\<^sup>* (initial_run w) (belgium_main sh w)"
proof (cases "features_from_place w place_name
                [(''boundary'', ''administrative''), (''admin_level'', chunk_admin_level)]")
  case (Inl e)
  then have "core (belgium_main sh w) = core (initial_run w)"
    by (simp add: belgium_main_def Let_def core_emit)
  then show ?thesis by (blast intro: advances_same)
next
  case (Inr states)
  let ?s2 = "emit [Found_states (len states)]
               (emit [Downloading_state_polygons place_name chunk_admin_level] (initial_run w))"
  let ?s3 = "for_enumerate (belgium_chunk sh w states) 0 (rows states) ?s2"
  have "(advances (belgium_batch sh w))\<^sup>*\<^sup>* ?s2 ?s3"
    by (rule for_enumerate_advances) (rule belgium_chunk_advances)
  then have "(advances (belgium_batch sh w))\<^sup>*\<^sup>* (initial_run w) ?s3"
    by (rule evolves_core_left) (simp add: core_emit)
  moreover have "core (belgium_main sh w) = core ?s3"
    using Inr by (simp add: belgium_main_def Let_def core_emit)
  ultimately show ?thesis by (rule evolves_core_right)
qed

lemma test2_main_evolves:
  "\<exists>c. (fetch_country_geom w = Inr c \<or> saved_features (test2_main sh w) = []) \<and>
       (advances (test2_batch sh w c))\<^sup>*\<^sup>* (initial_run w) (test2_main sh w)"
proof (cases "fetch_country_geom w")
  case (Inl e)
  then have c: "core (test2_main sh w) = core (initial_run w)"
    by (simp add: test2_main_def Let_def core_emit)
  then have "saved_features (test2_main sh w) = []"
    by (simp add: saved_features_def written_def core_def core_initial_run[unfolded core_def])
  moreover from c have "(advances (test2_batch sh w None))\<^sup>*\<^sup>* (initial_run w) (test2_main sh w)"
    by (blast intro: advances_same)
  ultimately show ?thesis by blast
next
  case c: (Inr c)
  let ?s2 = "emit [Country_boundary_downloaded,
                   Downloading_state_polygons place_name chunk_admin_level]
               (emit [Downloading_country_boundary] (initial_run w))"
  have "(advances (test2_batch sh w c))\<^sup>*\<^sup>* (initial_run w) (test2_main sh w)"
  proof (cases "features_from_place w place_name
                  [(''boundary'', ''administrative''), (''admin_level'', chunk_admin_level)]")
    case (Inl e)
    with c have "core (test2_main sh w) = core (initial_run w)"
      by (simp add: test2_main_def Let_def core_emit)
    then show ?thesis by (blast intro: advances_same)
  next
    case (Inr states)
    let ?s3 = "emit [Found_states (len states), Processing_municipalities_for_each_state] ?s2"
    let ?s4 = "for_enumerate (test2_chunk sh w c states) 0 (rows states) ?s3"
    have "(advances (test2_batch sh w c))\<^sup>*\<^sup>* ?s3 ?s4"
      by (rule for_enumerate_advances) (rule test2_chunk_advances)
    then have "(advances (test2_batch sh w c))\<^sup>*\<^sup>* (initial_run w) ?s4"
      by (rule evolves_core_left) (simp add: core_emit)
    moreover have "core (test2_main sh w) = core ?s4"
      using Inr c by (simp add: test2_main_def Let_def core_emit)
    ultimately show ?thesis by (rule evolves_core_right)
  qed
  with c show ?thesis by blast
qed

lemma evolves_file_ok:
  assumes "(advances P)\<^sup>*\<^sup>* s s'" and "\<And>ids b. P ids b \<Longrightarrow> rows b \<noteq> []" and "file_ok s"
  shows "file_ok s'"
  using assms(1,3)
proof (induction rule: rtranclp_induct)
  case base
  then show ?case by simp
next
  case (step y z)
  from step.hyps(2) assms(2) step.IH[OF step.prems] show ?case by (rule advances_file_ok)
qed

lemma evolves_ids_ok:
  assumes "(advances P)\<^sup>*\<^sup>* s s'" and "\<And>ids b. P ids b \<Longrightarrow> rows b \<noteq> []"
    and "file_ok s" and "ids_ok s"
  shows "ids_ok s'"
  using assms(1,3,4)
proof (induction rule: rtranclp_induct)
  case base
  then show ?case by simp
next
  case (step y z)
  from step.hyps(1) assms(2) step.prems(1) have "file_ok y" by (rule evolves_file_ok)
  with step show ?case by (blast intro: advances_ids_ok)
qed


lemma evolves_features:
  assumes "(advances P)\<^sup>*\<^sup>* s s'"
    and "\<And>ids b. P ids b \<Longrightarrow> rows b \<noteq> [] \<and> (\<forall>f\<in>set (rows b). Q f)"
    and "file_ok s" and "\<forall>f\<in>set (saved_features s). Q f"
  shows "\<forall>f\<in>set (saved_features s'). Q f"
  using assms(1,3,4)
proof (induction rule: rtranclp_induct)
  case base
  then show ?case by simp
next
  case (step y z)
  have ne: "\<And>ids b. P ids b \<Longrightarrow> rows b \<noteq> []" using assms(2) by blast
  from step.hyps(1) ne step.prems(1) have "file_ok y" by (rule evolves_file_ok)
  moreover have "\<forall>f\<in>set (saved_features y). Q f" using step by blast
  ultimately show ?case
    using step.hyps(2) assms(2) by (blast intro: advances_features[rule_format])
qed



lemma initial_run_ok:
  "file_ok (initial_run w)" "ids_ok (initial_run w)" "saved_features (initial_run w) = []"
  "written (initial_run w) = []" "saved_ids (initial_run w) = []"
  by (simp_all add: file_ok_def ids_ok_def saved_ids_def saved_features_def written_def
      initial_run_def emit_def Let_def)


lemma belgium_batch_ok:
  "belgium_batch sh w ids b \<Longrightarrow> rows b \<noteq> []"
  "belgium_batch sh w ids b \<Longrightarrow> rows b \<noteq> [] \<and> set (index b) \<inter> ids = {}"
  "unique_fetches w \<Longrightarrow> belgium_batch sh w ids b \<Longrightarrow>
     rows b \<noteq> [] \<and> distinct (index b) \<and> set (index b) \<inter> ids = {}"
  by (simp_all add: belgium_batch_new belgium_batch_distinct)

lemma test2_batch_ok:
  "test2_batch sh w c ids b \<Longrightarrow> rows b \<noteq> []"
  "test2_batch sh w c ids b \<Longrightarrow> rows b \<noteq> [] \<and> set (index b) \<inter> ids = {}"
  "unique_fetches w \<Longrightarrow> test2_batch sh w c ids b \<Longrightarrow>
     rows b \<noteq> [] \<and> distinct (index b) \<and> set (index b) \<inter> ids = {}"
  by (simp_all add: test2_batch_new test2_batch_distinct)

lemma belgium_main_ok: "file_ok (belgium_main sh w)" "ids_ok (belgium_main sh w)"
proof -
  note e = belgium_main_evolves[of sh w]
  show "file_ok (belgium_main sh w)"
    using e belgium_batch_ok(1) initial_run_ok(1) by (rule evolves_file_ok)
  show "ids_ok (belgium_main sh w)"
    using e belgium_batch_ok(1) initial_run_ok(1,2) by (rule evolves_ids_ok)
qed

lemma test2_main_ok: "file_ok (test2_main sh w)" "ids_ok (test2_main sh w)"
proof -
  from test2_main_evolves[of w sh] obtain c
    where e: "(advances (test2_batch sh w c))\<^sup>*\<^sup>* (initial_run w) (test2_main sh w)" by blast
  show "file_ok (test2_main sh w)"
    using e test2_batch_ok(1) initial_run_ok(1) by (rule evolves_file_ok)
  show "ids_ok (test2_main sh w)"
    using e test2_batch_ok(1) initial_run_ok(1,2) by (rule evolves_ids_ok)
qed






lemma test2_main_features:
  "\<forall>f\<in>set (saved_features (test2_main sh w)).
     level_is target_admin_level f \<and> (\<exists>c. fetch_country_geom w = Inr c \<and> lies_within sh c f)"
proof -
  from test2_main_evolves[of w sh] obtain c
    where c: "fetch_country_geom w = Inr c \<or> saved_features (test2_main sh w) = []"
      and e: "(advances (test2_batch sh w c))\<^sup>*\<^sup>* (initial_run w) (test2_main sh w)" by blast
  have "\<forall>f\<in>set (saved_features (test2_main sh w)).
          level_is target_admin_level f \<and> lies_within sh c f"
  proof (rule evolves_features[OF e])
    fix ids b
    assume "test2_batch sh w c ids b"
    then show "rows b \<noteq> [] \<and>
        (\<forall>f\<in>set (rows b). level_is target_admin_level f \<and> lies_within sh c f)"
      by (simp add: test2_batch_ok(1) test2_batch_features)
  qed (simp_all add: initial_run_ok)
  with c show ?thesis by auto
qed

lemma lies_withinD:
  "lies_within sh c f \<Longrightarrow> \<exists>g b. geometry_of f = Some g \<and> c = Some b \<and> within sh g b"
  by (auto simp: lies_within_def split: option.splits)



lemma emit_fields:
  "processed_osm_ids (emit out s) = processed_osm_ids s"
  "total_municipalities_saved (emit out s) = total_municipalities_saved s"
  "output_file (emit out s) = output_file s"
  "console (emit out s) = console s @ out"
  by (simp_all add: emit_def)

lemma initial_run_fields:
  "processed_osm_ids (initial_run w) = {}"
  "total_municipalities_saved (initial_run w) = 0"
  "output_file (initial_run w) = None"
  "console (initial_run w) =
     (if existing_file w = None then [] else [Removed_existing_file output_path])"
  by (simp_all add: initial_run_def emit_def Let_def)













lemma save_chunk_succeeds:
  assumes "to_file_raises w i = None"
  shows "fst (save_chunk w i b s) = None"
    and "core (snd (save_chunk w i b s)) = commit b (core s)"
proof -
  obtain r s' where x: "save_chunk w i b s = (r, s')" by (cases "save_chunk w i b s")
  from save_chunk_cases[OF x] assms show "fst (save_chunk w i b s) = None"
    and "core (snd (save_chunk w i b s)) = commit b (core s)"
    by (simp_all add: x)
qed

lemma save_chunk_fails:
  assumes "to_file_raises w i = Some e"
  shows "fst (save_chunk w i b s) = Some e"
    and "core (snd (save_chunk w i b s)) = core s"
proof -
  obtain r s' where x: "save_chunk w i b s = (r, s')" by (cases "save_chunk w i b s")
  from save_chunk_cases[OF x] assms show "fst (save_chunk w i b s) = Some e"
    and "core (snd (save_chunk w i b s)) = core s"
    by (simp_all add: x)
qed

section \<open>The switches\<close>

lemma staged_filter_strict: "staged_filter True True sh c ids df = test2_filter sh c ids df"
  by (simp add: staged_filter_def test2_filter_def Let_def split: sum.splits)

lemma staged_try_strict:
  "staged_try True True sh w c states i st n s = test2_try sh w c states i st n s"
  unfolding staged_try_def test2_try_def staged_filter_strict by (rule refl)

lemma staged_chunk_strict:
  "staged_chunk True True sh w c states = test2_chunk sh w c states"
  unfolding staged_chunk_def test2_chunk_def staged_try_strict by (rule refl)

lemma staged_main_strict: "staged_main True True sh w = test2_main sh w"
  unfolding staged_main_def test2_main_def staged_chunk_strict by (rule refl)

lemma staged_filter_relaxed:
  "snd (staged_filter False False sh c ids df) = snd (belgium_filter sh ids n df)"
  by (simp add: staged_filter_def belgium_filter_def Let_def split: sum.splits)

lemma save_chunk_core_cong:
  assumes "core s = core t"
  shows "fst (save_chunk w i b s) = fst (save_chunk w i b t)"
    and "core (snd (save_chunk w i b s)) = core (snd (save_chunk w i b t))"
proof (atomize (full), cases "to_file_raises w i")
  case None
  from save_chunk_succeeds[OF None] assms
  show "fst (save_chunk w i b s) = fst (save_chunk w i b t) \<and>
        core (snd (save_chunk w i b s)) = core (snd (save_chunk w i b t))" by simp
next
  case (Some e)
  from save_chunk_fails[OF Some] assms
  show "fst (save_chunk w i b s) = fst (save_chunk w i b t) \<and>
        core (snd (save_chunk w i b s)) = core (snd (save_chunk w i b t))" by simp
qed

lemma staged_try_relaxed:
  assumes "core s = core t"
  shows "fst (staged_try False False sh w c states i st n s) = fst (belgium_try sh w states i st n t)
       \<and> core (snd (staged_try False False sh w c states i st n s))
           = core (snd (belgium_try sh w states i st n t))"
proof (cases "state_geometry states st")
  case (Inl e)
  with assms show ?thesis by (simp add: staged_try_def belgium_try_def Let_def core_emit)
next
  case g: (Inr g)
  show ?thesis
  proof (cases "features_from_polygon w i g tags")
    case (Inl e)
    with g assms show ?thesis by (simp add: staged_try_def belgium_try_def Let_def core_emit)
  next
    case df: (Inr df)
    have ids: "processed_osm_ids s = processed_osm_ids t" using assms by (simp add: core_def)
    obtain out res where f: "staged_filter False False sh c (processed_osm_ids t) df = (out, res)"
      by (cases "staged_filter False False sh c (processed_osm_ids t) df")
    obtain out' res' where f': "belgium_filter sh (processed_osm_ids t) n df = (out', res')"
      by (cases "belgium_filter sh (processed_osm_ids t) n df")
    from staged_filter_relaxed[of sh c "processed_osm_ids t" df n] f f' have r: "res' = res"
      by simp
    let ?s1 = "emit out (emit [Downloading_municipalities n] s)"
    let ?t1 = "emit out' (emit [Downloading_municipalities n] t)"
    have c1: "core ?s1 = core ?t1" using assms by (simp add: core_emit)
    show ?thesis
    proof (cases res)
      case (Inl e)
      with g df f f' r ids c1 show ?thesis
        by (simp add: staged_try_def belgium_try_def Let_def emit_fields)
    next
      case (Inr ob)
      show ?thesis
      proof (cases ob)
        case None
        with Inr g df f f' r ids c1 show ?thesis
          by (simp add: staged_try_def belgium_try_def Let_def emit_fields)
      next
        case (Some b)
        with Inr g df f f' r ids save_chunk_core_cong[OF c1, of w i b] show ?thesis
          by (simp add: staged_try_def belgium_try_def Let_def emit_fields)
      qed
    qed
  qed
qed

lemma staged_chunk_relaxed:
  assumes "core s = core t"
  shows "core (staged_chunk False False sh w c states i st s) = core (belgium_chunk sh w states i st t)"
proof -
  let ?n = "state_name_of states i st"
  let ?s1 = "emit [Processing_chunk (i + 1) (len states) ?n] s"
  let ?t1 = "emit [Processing_chunk (i + 1) (len states) ?n] t"
  have "core ?s1 = core ?t1" using assms by (simp add: core_emit)
  from staged_try_relaxed[OF this, of sh w c states i st ?n] show ?thesis
    by (cases "staged_try False False sh w c states i st ?n ?s1";
        cases "belgium_try sh w states i st ?n ?t1")
       (auto simp: staged_chunk_def belgium_chunk_def Let_def core_emit split: option.splits)
qed

lemma staged_loop_relaxed:
  "core s = core t \<Longrightarrow>
   core (for_enumerate (staged_chunk False False sh w c states) i xs s)
     = core (for_enumerate (belgium_chunk sh w states) i xs t)"
proof (induction xs arbitrary: i s t)
  case Nil
  then show ?case by simp
next
  case (Cons x xs)
  from Cons.prems have "core (staged_chunk False False sh w c states i x s)
      = core (belgium_chunk sh w states i x t)" by (rule staged_chunk_relaxed)
  then show ?case by (simp add: Cons.IH)
qed

lemma staged_main_relaxed:
  assumes "fetch_country_geom w = Inr c"
  shows "core (staged_main False False sh w) = core (belgium_main sh w)"
proof (cases "features_from_place w place_name
                [(''boundary'', ''administrative''), (''admin_level'', chunk_admin_level)]")
  case (Inl e)
  with assms show ?thesis
    by (simp add: staged_main_def belgium_main_def Let_def core_emit)
next
  case (Inr states)
  let ?s = "emit [Found_states (len states), Processing_municipalities_for_each_state]
              (emit [Country_boundary_downloaded,
                     Downloading_state_polygons place_name chunk_admin_level]
                 (emit [Downloading_country_boundary] (initial_run w)))"
  let ?t = "emit [Found_states (len states)]
              (emit [Downloading_state_polygons place_name chunk_admin_level] (initial_run w))"
  have "core ?s = core ?t" by (simp add: core_emit)
  then have "core (for_enumerate (staged_chunk False False sh w c states) 0 (rows states) ?s)
      = core (for_enumerate (belgium_chunk sh w states) 0 (rows states) ?t)"
    by (rule staged_loop_relaxed)
  with Inr assms show ?thesis
    by (simp add: staged_main_def belgium_main_def Let_def core_emit)
qed

lemma staged_main_no_boundary:
  assumes "fetch_country_geom w = Inl e"
  shows "core (staged_main level_on containment_on sh w) = ({}, 0, None)"
  using assms by (simp add: staged_main_def Let_def core_emit core_initial_run)

section \<open>What a chunk saves\<close>

lemma belgium_cleaned_simps:
  "columns (belgium_cleaned sh ids df) = filter (\<lambda>col. col \<in> set (columns df)) columns_to_keep"
  "index (belgium_cleaned sh ids df)
     = map osmid (filter (is_polygon sh) (filter (is_new ids) (rows df)))"
  "rows (belgium_cleaned sh ids df) = [] \<longleftrightarrow>
     filter (is_polygon sh) (filter (is_new ids) (rows df)) = []"
  by (simp_all add: belgium_cleaned_def project_stage_simps select_rows_simps novelty_stage_def
      index_project_stage index_select_rows)

lemma test2_cleaned_simps:
  "columns (test2_cleaned sh c ids df) = filter (\<lambda>col. col \<in> set (columns df)) columns_to_keep"
  "index (test2_cleaned sh c ids df)
     = map osmid (filter (is_polygon sh) (filter (is_new ids)
         (filter (lies_within sh (Some c)) (filter (level_is target_admin_level) (rows df)))))"
  "rows (test2_cleaned sh c ids df) = [] \<longleftrightarrow>
     filter (is_polygon sh) (filter (is_new ids)
       (filter (lies_within sh (Some c)) (filter (level_is target_admin_level) (rows df)))) = []"
  by (simp_all add: test2_cleaned_def project_stage_simps select_rows_simps novelty_stage_def
      index_project_stage index_select_rows)

lemma belgium_filter_cleaned:
  assumes "''geometry'' \<in> set (columns df)"
  shows "snd (belgium_filter sh ids n df) =
           (if rows (belgium_cleaned sh ids df) = [] then Inr None
            else Inr (Some (belgium_cleaned sh ids df)))"
proof -
  have c: "filter (\<lambda>col. col \<in> set (columns df)) columns_to_keep \<noteq> []"
    using assms by (simp add: columns_to_keep_def)
  from assms have ne: "columns df \<noteq> []" by auto
  show ?thesis
    using assms c ne
    by (auto simp: belgium_filter_def Let_def df_empty_def polygon_stage_def novelty_stage_def
        select_rows_simps project_stage_simps belgium_cleaned_def filter_empty_conv)
qed

lemma test2_filter_cleaned:
  assumes "''geometry'' \<in> set (columns df)" and "''admin_level'' \<in> set (columns df)"
  shows "snd (test2_filter sh (Some c) ids df) =
           (if rows (test2_cleaned sh c ids df) = [] then Inr None
            else Inr (Some (test2_cleaned sh c ids df)))"
proof -
  have c: "filter (\<lambda>col. col \<in> set (columns df)) columns_to_keep \<noteq> []"
    using assms by (simp add: columns_to_keep_def)
  from assms have ne: "columns df \<noteq> []" by auto
  show ?thesis
    using assms c ne
    by (auto simp: test2_filter_def Let_def df_empty_def polygon_stage_def novelty_stage_def
        level_stage_def within_stage_def select_rows_simps project_stage_simps test2_cleaned_def
        filter_empty_conv)
qed

lemma belgium_chunk_saves:
  assumes "state_geometry states st = Inr g" and "features_from_polygon w i g tags = Inr df"
    and "''geometry'' \<in> set (columns df)" and "to_file_raises w i = None"
  shows "core (belgium_chunk sh w states i st s) =
           (if rows (belgium_cleaned sh (processed_osm_ids s) df) = [] then core s
            else commit (belgium_cleaned sh (processed_osm_ids s) df) (core s))"
proof -
  let ?n = "state_name_of states i st"
  let ?s1 = "emit [Downloading_municipalities ?n]
               (emit [Processing_chunk (i + 1) (len states) ?n] s)"
  let ?b = "belgium_cleaned sh (processed_osm_ids s) df"
  obtain out res where f: "belgium_filter sh (processed_osm_ids s) ?n df = (out, res)"
    by (cases "belgium_filter sh (processed_osm_ids s) ?n df")
  from belgium_filter_cleaned[OF assms(3), of sh "processed_osm_ids s" ?n] f
  have res: "res = (if rows ?b = [] then Inr None else Inr (Some ?b))" by simp
  show ?thesis
  proof (cases "rows ?b = []")
    case True
    with res f assms(1,2) show ?thesis
      by (simp add: belgium_chunk_def belgium_try_def Let_def emit_fields core_emit)
  next
    case False
    obtain r s' where sv: "save_chunk w i ?b (emit out ?s1) = (r, s')"
      by (cases "save_chunk w i ?b (emit out ?s1)")
    from save_chunk_succeeds[OF assms(4), of ?b "emit out ?s1"] sv
    have "r = None" and "core s' = commit ?b (core s)" by (simp_all add: core_emit)
    with False res f assms(1,2) sv show ?thesis
      by (simp add: belgium_chunk_def belgium_try_def Let_def emit_fields)
  qed
qed

lemma test2_chunk_saves:
  assumes "state_geometry states st = Inr g" and "features_from_polygon w i g tags = Inr df"
    and "''geometry'' \<in> set (columns df)" and "''admin_level'' \<in> set (columns df)"
    and "to_file_raises w i = None"
  shows "core (test2_chunk sh w (Some c) states i st s) =
           (if rows (test2_cleaned sh c (processed_osm_ids s) df) = [] then core s
            else commit (test2_cleaned sh c (processed_osm_ids s) df) (core s))"
proof -
  let ?n = "state_name_of states i st"
  let ?s1 = "emit [Downloading_municipalities ?n]
               (emit [Processing_chunk (i + 1) (len states) ?n] s)"
  let ?b = "test2_cleaned sh c (processed_osm_ids s) df"
  obtain out res where f: "test2_filter sh (Some c) (processed_osm_ids s) df = (out, res)"
    by (cases "test2_filter sh (Some c) (processed_osm_ids s) df")
  from test2_filter_cleaned[OF assms(3,4), of sh c "processed_osm_ids s"] f
  have res: "res = (if rows ?b = [] then Inr None else Inr (Some ?b))" by simp
  show ?thesis
  proof (cases "rows ?b = []")
    case True
    with res f assms(1,2) show ?thesis
      by (simp add: test2_chunk_def test2_try_def Let_def emit_fields core_emit)
  next
    case False
    obtain r s' where sv: "save_chunk w i ?b (emit out ?s1) = (r, s')"
      by (cases "save_chunk w i ?b (emit out ?s1)")
    from save_chunk_succeeds[OF assms(5), of ?b "emit out ?s1"] sv
    have "r = None" and "core s' = commit ?b (core s)" by (simp_all add: core_emit)
    with False res f assms(1,2) sv show ?thesis
      by (simp add: test2_chunk_def test2_try_def Let_def emit_fields)
  qed
qed

text \<open>In terms of the file: the rows of the cleaned frame are appended, and nothing else.\<close>

lemma saves_effect:
  assumes "file_ok s"
    and "core s' = (if rows b = [] then core s else commit b (core s))"
  shows "saved_features s' = saved_features s @ rows b \<and>
         processed_osm_ids s' = processed_osm_ids s \<union> set (index b) \<and>
         total_municipalities_saved s' = total_municipalities_saved s + len b \<and>
         written s' = (if rows b = [] then written s else written s @ [(layer, b)])"
proof (cases "rows b = []")
  case True
  with assms(2) have c: "core s' = core s" by simp
  from True c show ?thesis
    by (simp add: saved_features_def written_def core_def index_def len_def)
next
  case False
  with assms(2) have c: "core s' = commit b (core s)" by simp
  from False commit_effect[OF assms(1) c] commit_saved[OF assms(1) c]
  show ?thesis by simp
qed

section \<open>The claims\<close>

text \<open>
  C9. For a fixed set of saved identifiers, cleaning is idempotent: a batch that came out of
  the filter pipeline (level, containment, novelty, geometry type, projection; the
  non-strict pipeline has the last three only) comes out of it again unchanged.
\<close>

theorem filter_pipeline_idempotent:
  "(snd (belgium_filter sh ids n df) = Inr (Some b) \<longrightarrow>
      snd (belgium_filter sh ids n b) = Inr (Some b)) \<and>
   (snd (test2_filter sh c ids df) = Inr (Some b') \<longrightarrow>
      snd (test2_filter sh c ids b') = Inr (Some b'))"
proof (intro conjI impI)
  assume a: "snd (belgium_filter sh ids n df) = Inr (Some b)"
  show "snd (belgium_filter sh ids n b) = Inr (Some b)"
    using belgium_filter_batch(3)[OF a] belgium_filter_rows[OF a] belgium_filter_columns(2,3)[OF a]
    by (intro belgium_filter_fixed) auto
next
  assume a: "snd (test2_filter sh c ids df) = Inr (Some b')"
  show "snd (test2_filter sh c ids b') = Inr (Some b')"
    using test2_filter_batch(4)[OF a] test2_filter_rows[OF a] test2_filter_columns(2,3,4)[OF a]
    by (intro test2_filter_fixed) auto
qed

theorem filter_pipeline_idempotent_witness:
  "snd (belgium_filter grid {} (Default 1) chunk_one) = Inr (Some loose_batch) \<and>
   snd (belgium_filter grid {} (Default 1) loose_batch) = Inr (Some loose_batch) \<and>
   snd (test2_filter grid (Some germany) {} chunk_one) = Inr (Some strict_batch) \<and>
   snd (test2_filter grid (Some germany) {} strict_batch) = Inr (Some strict_batch)"
proof -
  have a: "snd (belgium_filter grid {} (Default 1) chunk_one) = Inr (Some loose_batch)"
    by code_simp
  have b: "snd (test2_filter grid (Some germany) {} chunk_one) = Inr (Some strict_batch)"
    by code_simp
  from a b filter_pipeline_idempotent[where sh = grid and ids = "{}" and n = "Default 1"
      and df = chunk_one and b = loose_batch and c = "Some germany" and b' = strict_batch]
  show ?thesis by simp
qed



text \<open>
  C2, as amended. In the strict pipeline every feature in the output file has an
  \<^verbatim>\<open>admin_level\<close> cell equal to the target level; a feature with another level, or with
  none, is not in the file. The non-strict pipeline has no level stage: it saves the
  features whatever level the fetch returned them with.
\<close>

theorem strict_level_equals_target:
  "\<forall>f\<in>set (saved_features (test2_main sh w)).
     map_of (cells f) ''admin_level'' = Some (Str target_admin_level)"
  using test2_main_features[of sh w] by (simp add: level_is_def)

theorem strict_level_equals_target_witness:
  "saved_features (test2_main grid demo) = [keep_cells columns_to_keep way123_first] \<and>
   list_all (\<lambda>f. map_of (cells f) ''admin_level'' = Some (Str target_admin_level))
     (saved_features (test2_main grid demo))"
proof -
  have "saved_features (test2_main grid demo) = [keep_cells columns_to_keep way123_first]"
    by code_simp
  with strict_level_equals_target[of grid demo] show ?thesis
    unfolding list_all_iff by blast
qed

text \<open>
  C2 as stated fails for the non-strict pipeline: in the example world the fetch returns
  a feature of level 9 in the first chunk, and it is written.
\<close>

theorem nonstrict_level_counterexample:
  "\<not> list_all (level_is target_admin_level) (saved_features (belgium_main grid demo))"
  by code_simp

text \<open>
  C4. In the strict pipeline every feature in the output file has a geometry, the country
  boundary was fetched, and the geometry is within the boundary, by the \<^verbatim>\<open>within\<close>
  predicate of the geometry library.
\<close>

theorem strict_features_within_country:
  "\<forall>f\<in>set (saved_features (test2_main sh w)).
     \<exists>g b. geometry_of f = Some g \<and> fetch_country_geom w = Inr (Some b) \<and> within sh g b"
proof
  fix f
  assume "f \<in> set (saved_features (test2_main sh w))"
  with test2_main_features[of sh w] obtain c
    where "fetch_country_geom w = Inr c" and "lies_within sh c f" by blast
  then show "\<exists>g b. geometry_of f = Some g \<and> fetch_country_geom w = Inr (Some b) \<and> within sh g b"
    by (auto dest: lies_withinD)
qed

theorem strict_features_within_country_witness:
  "saved_ids (test2_main grid demo) = [(''way'', 123)] \<and>
   saved_ids (belgium_main grid demo) = [(''way'', 123), (''relation'', 9), (''way'', 5)] \<and>
   \<not> lies_within grid (Some germany) border_town \<and>
   list_all (\<lambda>f. \<exists>g b. geometry_of f = Some g \<and> fetch_country_geom demo = Inr (Some b) \<and>
               within grid g b)
     (saved_features (test2_main grid demo))"
proof -
  have "saved_ids (test2_main grid demo) = [(''way'', 123)]" by code_simp
  moreover have "saved_ids (belgium_main grid demo)
      = [(''way'', 123), (''relation'', 9), (''way'', 5)]" by code_simp
  moreover have "\<not> lies_within grid (Some germany) border_town" by code_simp
  ultimately show ?thesis
    using strict_features_within_country[of grid demo] unfolding list_all_iff by blast
qed






text \<open>
  C7. When the states cannot be fetched, or in the strict pipeline the country boundary,
  the run prints the error and returns: nothing is saved, no file is written, and the
  console holds no line of any chunk and no summary.
\<close>

theorem fatal_fetch_ends_run:
  "(features_from_place w place_name
      [(''boundary'', ''administrative''), (''admin_level'', chunk_admin_level)] = Inl e \<longrightarrow>
      processed_osm_ids (belgium_main sh w) = {} \<and>
      total_municipalities_saved (belgium_main sh w) = 0 \<and>
      output_file (belgium_main sh w) = None \<and>
      console (belgium_main sh w) = console (initial_run w) @
        [Downloading_state_polygons place_name chunk_admin_level,
         Could_not_download_state_polygons e] \<and>
      (fetch_country_geom w = Inr c \<longrightarrow>
         processed_osm_ids (test2_main sh w) = {} \<and>
         total_municipalities_saved (test2_main sh w) = 0 \<and>
         output_file (test2_main sh w) = None \<and>
         console (test2_main sh w) = console (initial_run w) @
           [Downloading_country_boundary, Country_boundary_downloaded,
            Downloading_state_polygons place_name chunk_admin_level,
            Could_not_download_state_polygons e])) \<and>
   (fetch_country_geom w = Inl e \<longrightarrow>
      processed_osm_ids (test2_main sh w) = {} \<and>
      total_municipalities_saved (test2_main sh w) = 0 \<and>
      output_file (test2_main sh w) = None \<and>
      console (test2_main sh w) = console (initial_run w) @
        [Downloading_country_boundary, Could_not_download_country_boundary e]) \<and>
   console (initial_run w)
     = (if existing_file w = None then [] else [Removed_existing_file output_path])"
  by (simp add: belgium_main_def test2_main_def Let_def emit_fields initial_run_fields)

theorem fatal_fetch_ends_run_witness:
  "features_from_place no_states place_name
     [(''boundary'', ''administrative''), (''admin_level'', chunk_admin_level)]
     = Inl (Exception ''no route to host'') \<and>
   fetch_country_geom no_states = Inr (Some germany) \<and>
   fetch_country_geom no_boundary = Inl (Exception ''no route to host'') \<and>
   output_file (belgium_main grid no_states) = None \<and>
   total_municipalities_saved (belgium_main grid no_states) = 0 \<and>
   console (belgium_main grid no_states) = console (initial_run no_states) @
     [Downloading_state_polygons place_name chunk_admin_level,
      Could_not_download_state_polygons (Exception ''no route to host'')] \<and>
   output_file (test2_main grid no_states) = None \<and>
   total_municipalities_saved (test2_main grid no_states) = 0 \<and>
   output_file (test2_main grid no_boundary) = None \<and>
   total_municipalities_saved (test2_main grid no_boundary) = 0 \<and>
   console (test2_main grid no_boundary) = console (initial_run no_boundary) @
     [Downloading_country_boundary,
      Could_not_download_country_boundary (Exception ''no route to host'')] \<and>
   console (initial_run no_boundary) = [Removed_existing_file output_path]"
proof -
  have 1: "features_from_place no_states place_name
             [(''boundary'', ''administrative''), (''admin_level'', chunk_admin_level)]
             = Inl (Exception ''no route to host'')"
    by (simp add: no_states_def)
  have 2: "fetch_country_geom no_states = Inr (Some germany)" by code_simp
  have 3: "fetch_country_geom no_boundary = Inl (Exception ''no route to host'')" by code_simp
  have 4: "console (initial_run no_boundary) = [Removed_existing_file output_path]" by code_simp
  from fatal_fetch_ends_run[where sh = grid and w = no_states
      and e = "Exception ''no route to host''" and c = "Some germany"]
    fatal_fetch_ends_run[where sh = grid and w = no_boundary
      and e = "Exception ''no route to host''" and c = "Some germany"]
    1 2 3 4
  show ?thesis by blast
qed



text \<open>
  C6. The write mode is \<^verbatim>\<open>w\<close> exactly when the running total is zero, which in a run is
  exactly when nothing was written yet: the first write that succeeds creates the file
  (a file found at the path was removed at the start), and every later one appends to it,
  always in the one layer.
\<close>

theorem first_write_creates_then_appends:
  "(write_mode_for (total_municipalities_saved s) = W \<longleftrightarrow> total_municipalities_saved s = 0) \<and>
   output_file (initial_run w) = None \<and>
   file_ok (initial_run w) \<and>
   (file_ok s \<longrightarrow>
      file_ok (belgium_chunk sh w states i st s) \<and>
      file_ok (test2_chunk sh w c states i st s) \<and>
      (write_mode_for (total_municipalities_saved s) = W \<longleftrightarrow> output_file s = None) \<and>
      (to_file_raises w i = None \<longrightarrow>
         output_file (snd (save_chunk w i b s)) = Some (written s @ [(layer, b)])) \<and>
      (to_file_raises w i = Some e \<longrightarrow>
         output_file (snd (save_chunk w i b s)) = output_file s)) \<and>
   file_ok (belgium_main sh w) \<and> file_ok (test2_main sh w) \<and>
   list_all (\<lambda>lb. fst lb = layer) (written (belgium_main sh w)) \<and>
   list_all (\<lambda>lb. fst lb = layer) (written (test2_main sh w))"
proof -
  have m: "write_mode_for (total_municipalities_saved s) = W \<longleftrightarrow> total_municipalities_saved s = 0"
    by (simp add: write_mode_for_def)
  have fb: "file_ok (belgium_chunk sh w states i st s)" if "file_ok s"
    using belgium_chunk_advances belgium_batch_ok(1) that by (rule advances_file_ok)
  have ft: "file_ok (test2_chunk sh w c states i st s)" if "file_ok s"
    using test2_chunk_advances test2_batch_ok(1) that by (rule advances_file_ok)
  have z: "write_mode_for (total_municipalities_saved s) = W \<longleftrightarrow> output_file s = None"
    if "file_ok s"
    using file_ok_total_zero[OF that] m by simp
  have ok: "output_file (snd (save_chunk w i b s)) = Some (written s @ [(layer, b)])"
    if "file_ok s" and "to_file_raises w i = None"
    using that(1) save_chunk_succeeds(2)[OF that(2)] by (rule commit_effect(2))
  have ko: "output_file (snd (save_chunk w i b s)) = output_file s"
    if "to_file_raises w i = Some e"
    using save_chunk_fails(2)[OF that, of b s] by (simp add: core_def)
  have lb: "list_all (\<lambda>lb. fst lb = layer) (written (belgium_main sh w))"
    using belgium_main_ok(1)[of sh w] by (simp add: file_ok_def list_all_iff)
  have lt: "list_all (\<lambda>lb. fst lb = layer) (written (test2_main sh w))"
    using test2_main_ok(1)[of sh w] by (simp add: file_ok_def list_all_iff)
  show ?thesis
    using m fb ft z ok ko lb lt belgium_main_ok(1)[of sh w] test2_main_ok(1)[of sh w]
      initial_run_ok(1)[of w] initial_run_fields(3)[of w]
    by blast
qed

theorem first_write_creates_then_appends_witness:
  "existing_file demo = Some [(''old'', chunk_two)] \<and>
   output_file (initial_run demo) = None \<and>
   write_mode_for (total_municipalities_saved (initial_run demo)) = W \<and>
   output_file (snd (save_chunk demo 0 loose_batch (initial_run demo)))
     = Some [(layer, loose_batch)] \<and>
   file_ok after_first \<and>
   write_mode_for (total_municipalities_saved after_first) = A \<and>
   output_file (snd (save_chunk demo 1 strict_batch after_first))
     = Some [(layer, loose_batch), (layer, strict_batch)] \<and>
   output_file (snd (save_chunk disk_full 0 strict_batch after_first)) = output_file after_first \<and>
   file_ok (belgium_chunk grid demo three_states 1 (rows three_states ! 1) after_first) \<and>
   map fst (written (belgium_main grid demo)) = [layer, layer]"
proof -
  have 1: "existing_file demo = Some [(''old'', chunk_two)]" by (simp add: demo_def)
  have 2: "file_ok after_first" by code_simp
  have 3: "to_file_raises demo 0 = None" "to_file_raises demo 1 = None"
    "to_file_raises disk_full 0 = Some (Exception ''disk full'')"
    by (simp_all add: demo_def disk_full_def)
  have 4: "written (initial_run demo) = []" by (rule initial_run_ok)
  have 5: "written after_first = [(layer, loose_batch)]"
    by (simp add: written_def after_first_def)
  have 6: "write_mode_for (total_municipalities_saved after_first) = A" by code_simp
  have 7: "map fst (written (belgium_main grid demo)) = [layer, layer]" by code_simp
  from first_write_creates_then_appends[where sh = grid and w = demo and s = "initial_run demo"
      and i = 0 and b = loose_batch and states = three_states and st = "rows three_states ! 1"
      and c = "Some germany" and e = "Exception ''disk full''"]
    first_write_creates_then_appends[where sh = grid and w = demo and s = after_first
      and i = 1 and b = strict_batch and states = three_states and st = "rows three_states ! 1"
      and c = "Some germany" and e = "Exception ''disk full''"]
    first_write_creates_then_appends[where sh = grid and w = disk_full and s = after_first
      and i = 0 and b = strict_batch and states = three_states and st = "rows three_states ! 1"
      and c = "Some germany" and e = "Exception ''disk full''"]
    1 2 3 4 5 6 7
  show ?thesis by (simp add: initial_run_fields)
qed

text \<open>
  C10, as amended. With both switches on, the switched pipeline is test2.py. With both
  switches off it leaves the same file, the same set of saved identifiers and the same
  running total as belgium_municipalities.py, on every input for which the country
  boundary is fetched. The strict script fetches the boundary first, whatever the
  switches, and when that fetch fails it ends the run with nothing written.
\<close>

theorem variants_agree_when_boundary_fetched:
  "staged_main True True sh w = test2_main sh w \<and>
   (fetch_country_geom w = Inr c \<longrightarrow>
      output_file (staged_main False False sh w) = output_file (belgium_main sh w) \<and>
      processed_osm_ids (staged_main False False sh w) = processed_osm_ids (belgium_main sh w) \<and>
      total_municipalities_saved (staged_main False False sh w)
        = total_municipalities_saved (belgium_main sh w)) \<and>
   (fetch_country_geom w = Inl e \<longrightarrow>
      output_file (staged_main False False sh w) = None \<and>
      processed_osm_ids (staged_main False False sh w) = {} \<and>
      total_municipalities_saved (staged_main False False sh w) = 0)"
  using staged_main_strict[of sh w] staged_main_relaxed[of w c sh]
    staged_main_no_boundary[of w e False False sh]
  by (simp add: core_def)

theorem variants_agree_when_boundary_fetched_witness:
  "fetch_country_geom demo = Inr (Some germany) \<and>
   fetch_country_geom no_boundary = Inl (Exception ''no route to host'') \<and>
   saved_ids (belgium_main grid demo) = [(''way'', 123), (''relation'', 9), (''way'', 5)] \<and>
   output_file (staged_main False False grid demo) = output_file (belgium_main grid demo) \<and>
   processed_osm_ids (staged_main False False grid demo)
     = processed_osm_ids (belgium_main grid demo) \<and>
   total_municipalities_saved (staged_main False False grid demo)
     = total_municipalities_saved (belgium_main grid demo) \<and>
   output_file (staged_main False False grid no_boundary) = None"
proof -
  have 1: "fetch_country_geom demo = Inr (Some germany)" by code_simp
  have 2: "fetch_country_geom no_boundary = Inl (Exception ''no route to host'')" by code_simp
  have 3: "saved_ids (belgium_main grid demo)
             = [(''way'', 123), (''relation'', 9), (''way'', 5)]" by code_simp
  from variants_agree_when_boundary_fetched[where sh = grid and w = demo
      and c = "Some germany" and e = "Exception ''no route to host''"]
    variants_agree_when_boundary_fetched[where sh = grid and w = no_boundary
      and c = "Some germany" and e = "Exception ''no route to host''"]
    1 2 3
  show ?thesis by blast
qed

text \<open>
  C10 as stated fails on an input for which the boundary fetch fails: the strict script,
  with the two stages off, writes nothing, and the non-strict script, which never asks
  for the boundary, saves three features.
\<close>

theorem boundary_fetch_counterexample:
  "fetch_country_geom no_boundary = Inl (Exception ''no route to host'') \<and>
   saved_ids (staged_main False False grid no_boundary) = [] \<and>
   total_municipalities_saved (staged_main False False grid no_boundary) = 0 \<and>
   saved_ids (belgium_main grid no_boundary) = [(''way'', 123), (''relation'', 9), (''way'', 5)] \<and>
   total_municipalities_saved (belgium_main grid no_boundary) = 3 \<and>
   output_file (staged_main False False grid no_boundary)
     \<noteq> output_file (belgium_main grid no_boundary)"
  by code_simp

end
